theory Spec2Isabelle
  imports Complex_Main "HOL-Library.Word"
begin

section \<open>Data model\<close>

text \<open>
  \<^verbatim>\<open>preprocess.h\<close>: a point is three C floats, a frame is a vector of points. The
  pipeline only moves frames around, so a float is kept as its 32-bit pattern.
\<close>

type_synonym cfloat = "32 word"

record point3d =
  x :: cfloat
  y :: cfloat
  z :: cfloat

record lidar_data =
  points :: "point3d list"

text \<open>\<^verbatim>\<open>lidar_data inflight{}\<close>: a value-initialised frame has no points.\<close>

definition empty_data :: lidar_data where
  "empty_data = \<lparr>points = []\<rparr>"

section \<open>The frame source: \<^verbatim>\<open>load_data_from_files\<close>\<close>

definition files :: "string list" where
  "files = [''point_cloud1.txt'', ''point_cloud2.txt'', ''point_cloud3.txt'']"

text \<open>
  \<^verbatim>\<open>static int next_file\<close> is a 32-bit signed integer. The call reads
  \<^verbatim>\<open>files.begin()[next_file]\<close> (outside the list there is no defined result: \<open>None\<close>)
  and then stores \<^verbatim>\<open>(next_file + 1) % files.size()\<close>: the sum is computed in
  \<^verbatim>\<open>int\<close>, converted to the unsigned 64-bit \<^verbatim>\<open>size_t\<close> for the remainder, and
  the result is converted back to \<^verbatim>\<open>int\<close>. The function returns the name of the file
  handed to \<^verbatim>\<open>load_data\<close> and the new value of \<^verbatim>\<open>next_file\<close>.
\<close>

definition load_data_from_files :: "32 word \<Rightarrow> (string \<times> 32 word) option" where
  "load_data_from_files next_file =
     (if 0 \<le> sint next_file \<and> sint next_file < int (length files)
      then Some (files ! nat (sint next_file),
                 ucast ((scast (next_file + 1) :: 64 word) mod word_of_nat (length files)))
      else None)"

text \<open>
  \<open>load_calls n next_file\<close>: the file names loaded by \<open>n\<close> successive invocations,
  starting with the given value of the static counter.
\<close>

fun load_calls :: "nat \<Rightarrow> 32 word \<Rightarrow> string list option" where
  "load_calls 0 next_file = Some []"
| "load_calls (Suc n) next_file =
     (case load_data_from_files next_file of
        None \<Rightarrow> None
      | Some (f, next_file') \<Rightarrow> map_option ((#) f) (load_calls n next_file'))"

section \<open>Time and the periodic scheduler\<close>

text \<open>
  \<^verbatim>\<open>struct timespec\<close>: seconds and nanoseconds. The C fields are 64-bit signed; the
  values met here (clock readings, a handful of 100 ms steps) are far from the bounds,
  so they are unbounded integers.
\<close>

record timespec =
  tv_sec :: int
  tv_nsec :: int

definition ns :: "timespec \<Rightarrow> int" where
  "ns t = tv_sec t * 1000000000 + tv_nsec t"

text \<open>\<^verbatim>\<open>struct timespec interval { 0, 100000000 }\<close> of \<^verbatim>\<open>load_data_thread\<close>.\<close>

definition interval :: timespec where
  "interval = \<lparr>tv_sec = 0, tv_nsec = 100000000\<rparr>"

text \<open>
  \<^verbatim>\<open>main\<close>, after the clock has been read into \<^verbatim>\<open>state_unsafe.initial_time\<close>:
  \<^verbatim>\<open>initial_time.tv_sec++; initial_time.tv_nsec = 0;\<close>. The argument is the clock reading.
\<close>

definition initial_time_of :: "timespec \<Rightarrow> timespec" where
  "initial_time_of now = now\<lparr>tv_sec := tv_sec now + 1, tv_nsec := 0\<rparr>"

text \<open>
  \<^verbatim>\<open>load_data_thread\<close> starts with \<^verbatim>\<open>next_wake = state->initial_time\<close> and its first
  action in the loop is \<^verbatim>\<open>sleep_until(&next_wake)\<close>: the first wake time is the
  initial time.
\<close>

definition first_wake :: "timespec \<Rightarrow> timespec" where
  "first_wake now = initial_time_of now"

text \<open>
  Modelled from the spec: \<^verbatim>\<open>timespec_add\<close> is declared in \<^verbatim>\<open>utils.h\<close>, which is not
  among the sources. The spec says of the call \<^verbatim>\<open>timespec_add(&next_wake, &interval,
  &next_wake)\<close> that it sets \<open>next_wake += period\<close>: the result is the sum of the two
  times, with the nanoseconds carried into the seconds.
\<close>

definition timespec_add :: "timespec \<Rightarrow> timespec \<Rightarrow> timespec" where
  "timespec_add a b =
     (let s = tv_sec a + tv_sec b; n = tv_nsec a + tv_nsec b
      in if 1000000000 \<le> n then \<lparr>tv_sec = s + 1, tv_nsec = n - 1000000000\<rparr>
         else \<lparr>tv_sec = s, tv_nsec = n\<rparr>)"

text \<open>
  Modelled from the spec: \<^verbatim>\<open>sleep_until\<close> is declared in \<^verbatim>\<open>utils.h\<close>, which is not
  among the sources. The spec: sleep until \<open>next_wake\<close>, an absolute time; a wake time
  that has already passed does not wait. The clock is in nanoseconds.
\<close>

definition sleep_until :: "timespec \<Rightarrow> int \<Rightarrow> int" where
  "sleep_until wake clock = max clock (ns wake)"

text \<open>
  The scheduling variables of one pass through the loop of \<^verbatim>\<open>load_data_thread\<close>: the
  clock and the local \<^verbatim>\<open>next_wake\<close>. A pass sleeps until \<open>next_wake\<close>, spends \<open>work\<close>
  nanoseconds loading the frame and handing it over, and ends with
  \<^verbatim>\<open>timespec_add(&next_wake, &interval, &next_wake)\<close>.
\<close>

record sched =
  clock :: int
  next_wake :: timespec

definition acquisition_cycle :: "int \<Rightarrow> sched \<Rightarrow> sched" where
  "acquisition_cycle work s =
     (let woke = sleep_until (next_wake s) (clock s)
      in \<lparr>clock = woke + work, next_wake = timespec_add (next_wake s) interval\<rparr>)"

text \<open>The values of \<open>next_wake\<close> after each of a sequence of completed passes.\<close>

fun next_wakes :: "int list \<Rightarrow> sched \<Rightarrow> timespec list" where
  "next_wakes [] s = []"
| "next_wakes (work # works) s =
     next_wake (acquisition_cycle work s) # next_wakes works (acquisition_cycle work s)"

section \<open>The jitter monitor\<close>

text \<open>
  The sums of \<^verbatim>\<open>struct jitter_t\<close> are doubles. A double is kept as the real number it
  denotes, and every arithmetic operation rounds its exact result to binary64 with
  \<open>fl64\<close>: round to nearest, ties to even, 53 significant bits. \<open>normalise\<close> scales the
  magnitude into the interval from 1 to 2 and returns the exponent. Only the normal
  range is covered: overflow, subnormal numbers, infinities and NaN are left out.
\<close>

definition round_even :: "real \<Rightarrow> int" where
  "round_even r =
     (let f = \<lfloor>r\<rfloor>; d = r - of_int f
      in if d < 1 / 2 then f else if 1 / 2 < d then f + 1 else if even f then f else f + 1)"

fun normalise :: "nat \<Rightarrow> real \<Rightarrow> int \<Rightarrow> real \<times> int" where
  "normalise 0 m e = (m, e)"
| "normalise (Suc k) m e =
     (if 2 \<le> m then normalise k (m / 2) (e + 1)
      else if m < 1 then normalise k (m * 2) (e - 1)
      else (m, e))"

definition pow2 :: "int \<Rightarrow> real" where
  "pow2 e = (if 0 \<le> e then 2 ^ nat e else 1 / 2 ^ nat (- e))"

definition fl64 :: "real \<Rightarrow> real" where
  "fl64 r =
     (if r = 0 then 0
      else (case normalise 1100 \<bar>r\<bar> 0 of
              (m, e) \<Rightarrow> sgn r * of_int (round_even (m * 2 ^ 52)) * pow2 (e - 52)))"







section \<open>The pipeline: shared state, threads and the signal handler\<close>

text \<open>
  The agents that run code of this program: the three stage threads created by
  \<^verbatim>\<open>main\<close> and the handler installed for SIGINT. In \<open>step\<close> the handler is an agent of
  its own; \<open>step_on\<close> ties it to the stage thread that takes the signal.
\<close>

datatype tid = Load | Prep | Ident | Handler

text \<open>
  One hand-off slot of \<^verbatim>\<open>struct state\<close> (\<^verbatim>\<open>state->loaded\<close>, \<^verbatim>\<open>state->preprocessed\<close>),
  with the fields the code uses. The structure itself is declared in
  \<^verbatim>\<open>processing_threads.h\<close>, which is not among the sources. A mutex is its owner, if
  any; a condition variable is the list of threads blocked in \<^verbatim>\<open>pthread_cond_wait\<close> on it.
\<close>

record chan =
  has_data :: bool
  data :: lidar_data
  mutex :: "tid option"
  data_available :: "tid list"
  data_is_null :: "tid list"

text \<open>
  \<^verbatim>\<open>pthread_mutex_lock\<close> blocks (\<open>None\<close>) while the mutex has an owner.
  \<^verbatim>\<open>pthread_cond_signal\<close> unblocks one waiting thread, here the one that has waited
  longest, and does nothing when no thread waits. \<^verbatim>\<open>pthread_cond_wait\<close> is two steps:
  the caller releases the mutex and joins the waiters in one atomic action; once it is
  no longer among the waiters it returns as soon as it has the mutex again.
\<close>

definition mutex_lock :: "tid \<Rightarrow> chan \<Rightarrow> chan option" where
  "mutex_lock t ch = (if mutex ch = None then Some (ch\<lparr>mutex := Some t\<rparr>) else None)"

definition mutex_unlock :: "chan \<Rightarrow> chan" where
  "mutex_unlock ch = ch\<lparr>mutex := None\<rparr>"

definition cond_signal :: "tid list \<Rightarrow> tid list" where
  "cond_signal waiters = (case waiters of [] \<Rightarrow> [] | t # rest \<Rightarrow> rest)"

definition wait_data_available :: "tid \<Rightarrow> chan \<Rightarrow> chan" where
  "wait_data_available t ch = ch\<lparr>mutex := None, data_available := data_available ch @ [t]\<rparr>"

definition wait_data_is_null :: "tid \<Rightarrow> chan \<Rightarrow> chan" where
  "wait_data_is_null t ch = ch\<lparr>mutex := None, data_is_null := data_is_null ch @ [t]\<rparr>"

definition wait_return :: "tid \<Rightarrow> tid list \<Rightarrow> chan \<Rightarrow> chan option" where
  "wait_return t waiters ch = (if t \<in> set waiters then None else mutex_lock t ch)"

text \<open>
  The functions of \<^verbatim>\<open>preprocess.h\<close> are declared only; they are parameters. Each maps
  its input to the frame it leaves in the output argument, which the caller passes in
  empty. None of them has a result or an error indication (all return \<^verbatim>\<open>void\<close>).
\<close>

record collab =
  load_data :: "string \<Rightarrow> lidar_data"
  preprocess_discard :: "lidar_data \<Rightarrow> lidar_data"
  identify_driveable :: "lidar_data \<Rightarrow> lidar_data"

text \<open>Program points: one for each statement that touches shared state or calls out.\<close>

datatype load_pc =
    L_guard    \<comment> \<open>\<^verbatim>\<open>while (state->running)\<close>\<close>
  | L_sleep    \<comment> \<open>\<^verbatim>\<open>sleep_until(&next_wake)\<close>\<close>
  | L_load     \<comment> \<open>\<^verbatim>\<open>lidar_data inflight{}; state->load_data_blocking(&inflight)\<close>\<close>
  | L_lock     \<comment> \<open>\<^verbatim>\<open>pthread_mutex_lock(state->loaded.mutex)\<close>\<close>
  | L_test     \<comment> \<open>\<^verbatim>\<open>while (state->loaded.has_data)\<close>\<close>
  | L_enter    \<comment> \<open>\<^verbatim>\<open>pthread_cond_wait(data_is_null, mutex)\<close>, entry\<close>
  | L_wait     \<comment> \<open>blocked in \<^verbatim>\<open>pthread_cond_wait\<close>\<close>
  | L_check    \<comment> \<open>\<^verbatim>\<open>if (!state->running)\<close>\<close>
  | L_cancel   \<comment> \<open>\<^verbatim>\<open>pthread_mutex_unlock; return nullptr\<close>\<close>
  | L_store    \<comment> \<open>\<^verbatim>\<open>state->loaded.data = inflight\<close>\<close>
  | L_signal   \<comment> \<open>\<^verbatim>\<open>pthread_cond_signal(state->loaded.data_available)\<close>\<close>
  | L_unlock   \<comment> \<open>\<^verbatim>\<open>pthread_mutex_unlock(state->loaded.mutex)\<close>\<close>
  | L_advance  \<comment> \<open>\<^verbatim>\<open>timespec_add(&next_wake, &interval, &next_wake)\<close>\<close>
  | L_done     \<comment> \<open>returned\<close>

datatype prep_pc =
    P_guard    \<comment> \<open>\<^verbatim>\<open>while (state->running)\<close>\<close>
  | P_lock1    \<comment> \<open>\<^verbatim>\<open>pthread_mutex_lock(state->loaded.mutex)\<close>\<close>
  | P_test1    \<comment> \<open>\<^verbatim>\<open>while (!state->loaded.has_data)\<close>\<close>
  | P_enter1   \<comment> \<open>\<^verbatim>\<open>pthread_cond_wait(data_available, mutex)\<close>, entry\<close>
  | P_wait1    \<comment> \<open>blocked in \<^verbatim>\<open>pthread_cond_wait\<close>\<close>
  | P_check1   \<comment> \<open>\<^verbatim>\<open>if (!state->running)\<close>\<close>
  | P_cancel1  \<comment> \<open>\<^verbatim>\<open>pthread_mutex_unlock; return nullptr\<close>\<close>
  | P_take     \<comment> \<open>\<^verbatim>\<open>lidar_data inflight = state->loaded.data\<close>\<close>
  | P_clear    \<comment> \<open>\<^verbatim>\<open>state->loaded.has_data = false\<close>\<close>
  | P_signal1  \<comment> \<open>\<^verbatim>\<open>pthread_cond_signal(state->loaded.data_is_null)\<close>\<close>
  | P_unlock1  \<comment> \<open>\<^verbatim>\<open>pthread_mutex_unlock(state->loaded.mutex)\<close>\<close>
  | P_process  \<comment> \<open>\<^verbatim>\<open>lidar_data outbound{}; preprocess_discard(&inflight, &outbound)\<close>\<close>
  | P_lock2    \<comment> \<open>\<^verbatim>\<open>pthread_mutex_lock(state->preprocessed.mutex)\<close>\<close>
  | P_test2    \<comment> \<open>\<^verbatim>\<open>while (state->preprocessed.has_data)\<close>\<close>
  | P_enter2   \<comment> \<open>\<^verbatim>\<open>pthread_cond_wait(data_is_null, mutex)\<close>, entry\<close>
  | P_wait2    \<comment> \<open>blocked in \<^verbatim>\<open>pthread_cond_wait\<close>\<close>
  | P_check2   \<comment> \<open>\<^verbatim>\<open>if (!state->running)\<close>\<close>
  | P_cancel2  \<comment> \<open>\<^verbatim>\<open>pthread_mutex_unlock; return nullptr\<close>\<close>
  | P_store    \<comment> \<open>\<^verbatim>\<open>state->preprocessed.data = outbound\<close>\<close>
  | P_set      \<comment> \<open>\<^verbatim>\<open>state->preprocessed.has_data = true\<close>\<close>
  | P_signal2  \<comment> \<open>\<^verbatim>\<open>pthread_cond_signal(state->preprocessed.data_available)\<close>\<close>
  | P_unlock2  \<comment> \<open>\<^verbatim>\<open>pthread_mutex_unlock(state->preprocessed.mutex)\<close>\<close>
  | P_done     \<comment> \<open>returned\<close>

datatype ident_pc =
    I_guard    \<comment> \<open>\<^verbatim>\<open>while (state->running)\<close>\<close>
  | I_lock     \<comment> \<open>\<^verbatim>\<open>pthread_mutex_lock(state->preprocessed.mutex)\<close>\<close>
  | I_test     \<comment> \<open>\<^verbatim>\<open>while (!state->preprocessed.has_data)\<close>\<close>
  | I_enter    \<comment> \<open>\<^verbatim>\<open>pthread_cond_wait(data_available, mutex)\<close>, entry\<close>
  | I_wait     \<comment> \<open>blocked in \<^verbatim>\<open>pthread_cond_wait\<close>\<close>
  | I_check    \<comment> \<open>\<^verbatim>\<open>if (!state->running)\<close>\<close>
  | I_cancel   \<comment> \<open>\<^verbatim>\<open>pthread_mutex_unlock; return nullptr\<close>\<close>
  | I_take     \<comment> \<open>\<^verbatim>\<open>lidar_data inflight = state->preprocessed.data\<close>\<close>
  | I_clear    \<comment> \<open>\<^verbatim>\<open>state->preprocessed.has_data = false\<close>\<close>
  | I_signal   \<comment> \<open>\<^verbatim>\<open>pthread_cond_signal(state->preprocessed.data_is_null)\<close>\<close>
  | I_unlock   \<comment> \<open>\<^verbatim>\<open>pthread_mutex_unlock(state->preprocessed.mutex)\<close>\<close>
  | I_process  \<comment> \<open>\<^verbatim>\<open>lidar_data output; identify_driveable(&inflight, &output)\<close>\<close>
  | I_publish  \<comment> \<open>\<^verbatim>\<open>state->publish_data(&output)\<close>\<close>
  | I_done     \<comment> \<open>returned\<close>

datatype handler_pc =
    H_idle     \<comment> \<open>no SIGINT so far; the next step is \<^verbatim>\<open>state_unsafe.running = 0\<close>\<close>
  | H_lock1    \<comment> \<open>\<^verbatim>\<open>pthread_mutex_lock(state_unsafe.loaded.mutex)\<close>\<close>
  | H_avail1   \<comment> \<open>\<^verbatim>\<open>pthread_cond_signal(state_unsafe.loaded.data_available)\<close>\<close>
  | H_null1    \<comment> \<open>\<^verbatim>\<open>pthread_cond_signal(state_unsafe.loaded.data_is_null)\<close>\<close>
  | H_unlock1  \<comment> \<open>\<^verbatim>\<open>pthread_mutex_unlock(state_unsafe.loaded.mutex)\<close>\<close>
  | H_lock2    \<comment> \<open>\<^verbatim>\<open>pthread_mutex_lock(state_unsafe.preprocessed.mutex)\<close>\<close>
  | H_avail2   \<comment> \<open>\<^verbatim>\<open>pthread_cond_signal(state_unsafe.preprocessed.data_available)\<close>\<close>
  | H_null2    \<comment> \<open>\<^verbatim>\<open>pthread_cond_signal(state_unsafe.preprocessed.data_is_null)\<close>\<close>
  | H_unlock2  \<comment> \<open>\<^verbatim>\<open>pthread_mutex_unlock(state_unsafe.preprocessed.mutex)\<close>\<close>
  | H_done     \<comment> \<open>the handler has returned; a further SIGINT starts it again\<close>

text \<open>
  \<^verbatim>\<open>struct state\<close> with the static counter of \<^verbatim>\<open>load_data_from_files\<close>, what
  \<^verbatim>\<open>publish_data\<close> has been handed so far, and each agent's program point and locals.
\<close>

record state =
  running :: bool
  loaded :: chan
  preprocessed :: chan
  initial_time :: timespec
  next_file :: "32 word"
  published :: "lidar_data list"
  load_pc :: load_pc
  load_inflight :: lidar_data
  load_next_wake :: timespec
  prep_pc :: prep_pc
  prep_inflight :: lidar_data
  prep_outbound :: lidar_data
  ident_pc :: ident_pc
  ident_inflight :: lidar_data
  ident_output :: lidar_data
  handler_pc :: handler_pc

text \<open>
  The state when the three threads have been created: \<^verbatim>\<open>state_unsafe\<close> is static, hence
  zero-initialised; \<^verbatim>\<open>main\<close> sets \<^verbatim>\<open>running = 1\<close>, initialises the mutexes and
  condition variables, and computes \<open>initial_time\<close> from the clock reading;
  \<^verbatim>\<open>load_data_thread\<close> copies it to \<open>next_wake\<close>.
\<close>

definition empty_chan :: chan where
  "empty_chan = \<lparr>has_data = False, data = empty_data, mutex = None,
                  data_available = [], data_is_null = []\<rparr>"

definition init_state :: "timespec \<Rightarrow> state" where
  "init_state now =
     \<lparr>running = True, loaded = empty_chan, preprocessed = empty_chan,
      initial_time = initial_time_of now, next_file = 0, published = [],
      load_pc = L_guard, load_inflight = empty_data, load_next_wake = initial_time_of now,
      prep_pc = P_guard, prep_inflight = empty_data, prep_outbound = empty_data,
      ident_pc = I_guard, ident_inflight = empty_data, ident_output = empty_data,
      handler_pc = H_idle\<rparr>"

text \<open>One step of \<^verbatim>\<open>load_data_thread\<close>; \<open>None\<close> when the thread is blocked or has returned.\<close>

definition load_step :: "collab \<Rightarrow> state \<Rightarrow> state option" where
  "load_step c s =
     (case load_pc s of
        L_guard \<Rightarrow> Some (s\<lparr>load_pc := (if running s then L_sleep else L_done)\<rparr>)
      | L_sleep \<Rightarrow> Some (s\<lparr>load_pc := L_load\<rparr>)
      | L_load \<Rightarrow>
          (case load_data_from_files (next_file s) of
             None \<Rightarrow> None
           | Some (f, nf) \<Rightarrow>
               Some (s\<lparr>next_file := nf, load_inflight := load_data c f, load_pc := L_lock\<rparr>))
      | L_lock \<Rightarrow>
          map_option (\<lambda>ch. s\<lparr>loaded := ch, load_pc := L_test\<rparr>) (mutex_lock Load (loaded s))
      | L_test \<Rightarrow> Some (s\<lparr>load_pc := (if has_data (loaded s) then L_enter else L_store)\<rparr>)
      | L_enter \<Rightarrow> Some (s\<lparr>loaded := wait_data_is_null Load (loaded s), load_pc := L_wait\<rparr>)
      | L_wait \<Rightarrow>
          map_option (\<lambda>ch. s\<lparr>loaded := ch, load_pc := L_check\<rparr>)
            (wait_return Load (data_is_null (loaded s)) (loaded s))
      | L_check \<Rightarrow> Some (s\<lparr>load_pc := (if \<not> running s then L_cancel else L_test)\<rparr>)
      | L_cancel \<Rightarrow> Some (s\<lparr>loaded := mutex_unlock (loaded s), load_pc := L_done\<rparr>)
      | L_store \<Rightarrow> Some (s\<lparr>loaded := (loaded s)\<lparr>data := load_inflight s\<rparr>, load_pc := L_signal\<rparr>)
      | L_signal \<Rightarrow>
          Some (s\<lparr>loaded := (loaded s)\<lparr>data_available := cond_signal (data_available (loaded s))\<rparr>,
                  load_pc := L_unlock\<rparr>)
      | L_unlock \<Rightarrow> Some (s\<lparr>loaded := mutex_unlock (loaded s), load_pc := L_advance\<rparr>)
      | L_advance \<Rightarrow>
          Some (s\<lparr>load_next_wake := timespec_add (load_next_wake s) interval, load_pc := L_guard\<rparr>)
      | L_done \<Rightarrow> None)"

text \<open>One step of \<^verbatim>\<open>preprocess_discard_thread\<close>.\<close>

definition prep_step :: "collab \<Rightarrow> state \<Rightarrow> state option" where
  "prep_step c s =
     (case prep_pc s of
        P_guard \<Rightarrow> Some (s\<lparr>prep_pc := (if running s then P_lock1 else P_done)\<rparr>)
      | P_lock1 \<Rightarrow>
          map_option (\<lambda>ch. s\<lparr>loaded := ch, prep_pc := P_test1\<rparr>) (mutex_lock Prep (loaded s))
      | P_test1 \<Rightarrow> Some (s\<lparr>prep_pc := (if \<not> has_data (loaded s) then P_enter1 else P_take)\<rparr>)
      | P_enter1 \<Rightarrow> Some (s\<lparr>loaded := wait_data_available Prep (loaded s), prep_pc := P_wait1\<rparr>)
      | P_wait1 \<Rightarrow>
          map_option (\<lambda>ch. s\<lparr>loaded := ch, prep_pc := P_check1\<rparr>)
            (wait_return Prep (data_available (loaded s)) (loaded s))
      | P_check1 \<Rightarrow> Some (s\<lparr>prep_pc := (if \<not> running s then P_cancel1 else P_test1)\<rparr>)
      | P_cancel1 \<Rightarrow> Some (s\<lparr>loaded := mutex_unlock (loaded s), prep_pc := P_done\<rparr>)
      | P_take \<Rightarrow> Some (s\<lparr>prep_inflight := data (loaded s), prep_pc := P_clear\<rparr>)
      | P_clear \<Rightarrow> Some (s\<lparr>loaded := (loaded s)\<lparr>has_data := False\<rparr>, prep_pc := P_signal1\<rparr>)
      | P_signal1 \<Rightarrow>
          Some (s\<lparr>loaded := (loaded s)\<lparr>data_is_null := cond_signal (data_is_null (loaded s))\<rparr>,
                  prep_pc := P_unlock1\<rparr>)
      | P_unlock1 \<Rightarrow> Some (s\<lparr>loaded := mutex_unlock (loaded s), prep_pc := P_process\<rparr>)
      | P_process \<Rightarrow>
          Some (s\<lparr>prep_outbound := preprocess_discard c (prep_inflight s), prep_pc := P_lock2\<rparr>)
      | P_lock2 \<Rightarrow>
          map_option (\<lambda>ch. s\<lparr>preprocessed := ch, prep_pc := P_test2\<rparr>)
            (mutex_lock Prep (preprocessed s))
      | P_test2 \<Rightarrow> Some (s\<lparr>prep_pc := (if has_data (preprocessed s) then P_enter2 else P_store)\<rparr>)
      | P_enter2 \<Rightarrow>
          Some (s\<lparr>preprocessed := wait_data_is_null Prep (preprocessed s), prep_pc := P_wait2\<rparr>)
      | P_wait2 \<Rightarrow>
          map_option (\<lambda>ch. s\<lparr>preprocessed := ch, prep_pc := P_check2\<rparr>)
            (wait_return Prep (data_is_null (preprocessed s)) (preprocessed s))
      | P_check2 \<Rightarrow> Some (s\<lparr>prep_pc := (if \<not> running s then P_cancel2 else P_test2)\<rparr>)
      | P_cancel2 \<Rightarrow> Some (s\<lparr>preprocessed := mutex_unlock (preprocessed s), prep_pc := P_done\<rparr>)
      | P_store \<Rightarrow>
          Some (s\<lparr>preprocessed := (preprocessed s)\<lparr>data := prep_outbound s\<rparr>, prep_pc := P_set\<rparr>)
      | P_set \<Rightarrow>
          Some (s\<lparr>preprocessed := (preprocessed s)\<lparr>has_data := True\<rparr>, prep_pc := P_signal2\<rparr>)
      | P_signal2 \<Rightarrow>
          Some (s\<lparr>preprocessed :=
                    (preprocessed s)\<lparr>data_available := cond_signal (data_available (preprocessed s))\<rparr>,
                  prep_pc := P_unlock2\<rparr>)
      | P_unlock2 \<Rightarrow> Some (s\<lparr>preprocessed := mutex_unlock (preprocessed s), prep_pc := P_guard\<rparr>)
      | P_done \<Rightarrow> None)"

text \<open>
  One step of \<^verbatim>\<open>identify_driveable_thread\<close>. \<^verbatim>\<open>publish_data\<close> is \<^verbatim>\<open>print_data\<close>, which
  prints; the frame it is handed is appended to \<open>published\<close>.
\<close>

definition ident_step :: "collab \<Rightarrow> state \<Rightarrow> state option" where
  "ident_step c s =
     (case ident_pc s of
        I_guard \<Rightarrow> Some (s\<lparr>ident_pc := (if running s then I_lock else I_done)\<rparr>)
      | I_lock \<Rightarrow>
          map_option (\<lambda>ch. s\<lparr>preprocessed := ch, ident_pc := I_test\<rparr>)
            (mutex_lock Ident (preprocessed s))
      | I_test \<Rightarrow> Some (s\<lparr>ident_pc := (if \<not> has_data (preprocessed s) then I_enter else I_take)\<rparr>)
      | I_enter \<Rightarrow>
          Some (s\<lparr>preprocessed := wait_data_available Ident (preprocessed s), ident_pc := I_wait\<rparr>)
      | I_wait \<Rightarrow>
          map_option (\<lambda>ch. s\<lparr>preprocessed := ch, ident_pc := I_check\<rparr>)
            (wait_return Ident (data_available (preprocessed s)) (preprocessed s))
      | I_check \<Rightarrow> Some (s\<lparr>ident_pc := (if \<not> running s then I_cancel else I_test)\<rparr>)
      | I_cancel \<Rightarrow> Some (s\<lparr>preprocessed := mutex_unlock (preprocessed s), ident_pc := I_done\<rparr>)
      | I_take \<Rightarrow> Some (s\<lparr>ident_inflight := data (preprocessed s), ident_pc := I_clear\<rparr>)
      | I_clear \<Rightarrow>
          Some (s\<lparr>preprocessed := (preprocessed s)\<lparr>has_data := False\<rparr>, ident_pc := I_signal\<rparr>)
      | I_signal \<Rightarrow>
          Some (s\<lparr>preprocessed :=
                    (preprocessed s)\<lparr>data_is_null := cond_signal (data_is_null (preprocessed s))\<rparr>,
                  ident_pc := I_unlock\<rparr>)
      | I_unlock \<Rightarrow> Some (s\<lparr>preprocessed := mutex_unlock (preprocessed s), ident_pc := I_process\<rparr>)
      | I_process \<Rightarrow>
          Some (s\<lparr>ident_output := identify_driveable c (ident_inflight s), ident_pc := I_publish\<rparr>)
      | I_publish \<Rightarrow> Some (s\<lparr>published := published s @ [ident_output s], ident_pc := I_guard\<rparr>)
      | I_done \<Rightarrow> None)"

text \<open>One step of \<^verbatim>\<open>signal_handler\<close> with \<^verbatim>\<open>sig == SIGINT\<close>.\<close>

definition signal_handler :: "state \<Rightarrow> state option" where
  "signal_handler s =
     (case handler_pc s of
        H_idle \<Rightarrow> Some (s\<lparr>running := False, handler_pc := H_lock1\<rparr>)
      | H_lock1 \<Rightarrow>
          map_option (\<lambda>ch. s\<lparr>loaded := ch, handler_pc := H_avail1\<rparr>) (mutex_lock Handler (loaded s))
      | H_avail1 \<Rightarrow>
          Some (s\<lparr>loaded := (loaded s)\<lparr>data_available := cond_signal (data_available (loaded s))\<rparr>,
                  handler_pc := H_null1\<rparr>)
      | H_null1 \<Rightarrow>
          Some (s\<lparr>loaded := (loaded s)\<lparr>data_is_null := cond_signal (data_is_null (loaded s))\<rparr>,
                  handler_pc := H_unlock1\<rparr>)
      | H_unlock1 \<Rightarrow> Some (s\<lparr>loaded := mutex_unlock (loaded s), handler_pc := H_lock2\<rparr>)
      | H_lock2 \<Rightarrow>
          map_option (\<lambda>ch. s\<lparr>preprocessed := ch, handler_pc := H_avail2\<rparr>)
            (mutex_lock Handler (preprocessed s))
      | H_avail2 \<Rightarrow>
          Some (s\<lparr>preprocessed :=
                    (preprocessed s)\<lparr>data_available := cond_signal (data_available (preprocessed s))\<rparr>,
                  handler_pc := H_null2\<rparr>)
      | H_null2 \<Rightarrow>
          Some (s\<lparr>preprocessed :=
                    (preprocessed s)\<lparr>data_is_null := cond_signal (data_is_null (preprocessed s))\<rparr>,
                  handler_pc := H_unlock2\<rparr>)
      | H_unlock2 \<Rightarrow> Some (s\<lparr>preprocessed := mutex_unlock (preprocessed s), handler_pc := H_done\<rparr>)
      | H_done \<Rightarrow> Some (s\<lparr>running := False, handler_pc := H_lock1\<rparr>))"

text \<open>The agents interleave: a step of the pipeline is a step of one of them.\<close>

fun step :: "collab \<Rightarrow> tid \<Rightarrow> state \<Rightarrow> state option" where
  "step c Load s = load_step c s"
| "step c Prep s = prep_step c s"
| "step c Ident s = ident_step c s"
| "step c Handler s = signal_handler s"

text \<open>A schedule is the list of agents in the order in which they take their steps.\<close>

fun run :: "collab \<Rightarrow> tid list \<Rightarrow> state \<Rightarrow> state option" where
  "run c [] s = Some s"
| "run c (t # ts) s = (case step c t s of None \<Rightarrow> None | Some s' \<Rightarrow> run c ts s')"

text \<open>
  \<^verbatim>\<open>pthread_cond_wait\<close> may also return without a signal (a spurious wakeup): the
  thread leaves the waiters of every condition.
\<close>

definition drop_waiter :: "tid \<Rightarrow> chan \<Rightarrow> chan" where
  "drop_waiter t ch =
     ch\<lparr>data_available := removeAll t (data_available ch),
        data_is_null := removeAll t (data_is_null ch)\<rparr>"

definition spurious_wakeup :: "tid \<Rightarrow> state \<Rightarrow> state" where
  "spurious_wakeup t s =
     s\<lparr>loaded := drop_waiter t (loaded s), preprocessed := drop_waiter t (preprocessed s)\<rparr>"

text \<open>
  The states the pipeline can reach from a state \<open>s0\<close>, and the states it can reach
  after \<^verbatim>\<open>main\<close> has read the clock as \<open>now\<close>.
\<close>

inductive reachable_from :: "collab \<Rightarrow> state \<Rightarrow> state \<Rightarrow> bool" for c :: collab and s0 :: state where
  reachable_start: "reachable_from c s0 s0"
| reachable_step: "reachable_from c s0 s \<Longrightarrow> step c t s = Some s' \<Longrightarrow> reachable_from c s0 s'"
| reachable_spurious: "reachable_from c s0 s \<Longrightarrow> reachable_from c s0 (spurious_wakeup t s)"

definition reachable :: "collab \<Rightarrow> timespec \<Rightarrow> state \<Rightarrow> bool" where
  "reachable c now s = reachable_from c (init_state now) s"

text \<open>
  The critical sections: the program points at which a thread owns a slot's mutex, from
  the statement after \<^verbatim>\<open>pthread_mutex_lock\<close> up to the \<^verbatim>\<open>pthread_mutex_unlock\<close>, without
  the point at which the thread is blocked inside \<^verbatim>\<open>pthread_cond_wait\<close>.
\<close>

definition load_critical :: "load_pc \<Rightarrow> bool" where
  "load_critical pc =
     (case pc of L_test \<Rightarrow> True | L_enter \<Rightarrow> True | L_check \<Rightarrow> True | L_cancel \<Rightarrow> True
      | L_store \<Rightarrow> True | L_signal \<Rightarrow> True | L_unlock \<Rightarrow> True | _ \<Rightarrow> False)"

definition prep_critical1 :: "prep_pc \<Rightarrow> bool" where
  "prep_critical1 pc =
     (case pc of P_test1 \<Rightarrow> True | P_enter1 \<Rightarrow> True | P_check1 \<Rightarrow> True | P_cancel1 \<Rightarrow> True
      | P_take \<Rightarrow> True | P_clear \<Rightarrow> True | P_signal1 \<Rightarrow> True | P_unlock1 \<Rightarrow> True | _ \<Rightarrow> False)"

definition prep_critical2 :: "prep_pc \<Rightarrow> bool" where
  "prep_critical2 pc =
     (case pc of P_test2 \<Rightarrow> True | P_enter2 \<Rightarrow> True | P_check2 \<Rightarrow> True | P_cancel2 \<Rightarrow> True
      | P_store \<Rightarrow> True | P_set \<Rightarrow> True | P_signal2 \<Rightarrow> True | P_unlock2 \<Rightarrow> True | _ \<Rightarrow> False)"

definition ident_critical :: "ident_pc \<Rightarrow> bool" where
  "ident_critical pc =
     (case pc of I_test \<Rightarrow> True | I_enter \<Rightarrow> True | I_check \<Rightarrow> True | I_cancel \<Rightarrow> True
      | I_take \<Rightarrow> True | I_clear \<Rightarrow> True | I_signal \<Rightarrow> True | I_unlock \<Rightarrow> True | _ \<Rightarrow> False)"

definition handler_critical1 :: "handler_pc \<Rightarrow> bool" where
  "handler_critical1 pc =
     (case pc of H_avail1 \<Rightarrow> True | H_null1 \<Rightarrow> True | H_unlock1 \<Rightarrow> True | _ \<Rightarrow> False)"

definition handler_critical2 :: "handler_pc \<Rightarrow> bool" where
  "handler_critical2 pc =
     (case pc of H_avail2 \<Rightarrow> True | H_null2 \<Rightarrow> True | H_unlock2 \<Rightarrow> True | _ \<Rightarrow> False)"

text \<open>Each mutex is owned by an agent exactly while that agent is in its critical section.\<close>

definition lock_inv :: "state \<Rightarrow> bool" where
  "lock_inv s \<longleftrightarrow>
     (mutex (loaded s) = Some Load) = load_critical (load_pc s)
   \<and> (mutex (loaded s) = Some Prep) = prep_critical1 (prep_pc s)
   \<and> mutex (loaded s) \<noteq> Some Ident
   \<and> (mutex (loaded s) = Some Handler) = handler_critical1 (handler_pc s)
   \<and> mutex (preprocessed s) \<noteq> Some Load
   \<and> (mutex (preprocessed s) = Some Prep) = prep_critical2 (prep_pc s)
   \<and> (mutex (preprocessed s) = Some Ident) = ident_critical (ident_pc s)
   \<and> (mutex (preprocessed s) = Some Handler) = handler_critical2 (handler_pc s)"

text \<open>
  Each condition variable has one thread that ever waits on it, and that thread is
  among its waiters at most once, while it is blocked.
\<close>

definition waiters_inv :: "state \<Rightarrow> bool" where
  "waiters_inv s \<longleftrightarrow>
     (data_is_null (loaded s) = [] \<or> data_is_null (loaded s) = [Load] \<and> load_pc s = L_wait)
   \<and> (data_available (loaded s) = [] \<or> data_available (loaded s) = [Prep] \<and> prep_pc s = P_wait1)
   \<and> (data_is_null (preprocessed s) = []
        \<or> data_is_null (preprocessed s) = [Prep] \<and> prep_pc s = P_wait2)
   \<and> (data_available (preprocessed s) = []
        \<or> data_available (preprocessed s) = [Ident] \<and> ident_pc s = I_wait)"

text \<open>
  A frame source and filters for concrete runs: the three files hold the one-point
  frames A, B and C, and both filters pass their input through.
\<close>

definition frame_A :: lidar_data where
  "frame_A = \<lparr>points = [\<lparr>x = 1, y = 0, z = 0\<rparr>]\<rparr>"

definition frame_B :: lidar_data where
  "frame_B = \<lparr>points = [\<lparr>x = 2, y = 0, z = 0\<rparr>]\<rparr>"

definition frame_C :: lidar_data where
  "frame_C = \<lparr>points = [\<lparr>x = 3, y = 0, z = 0\<rparr>]\<rparr>"

definition test_collab :: collab where
  "test_collab =
     \<lparr>load_data = (\<lambda>f. if f = ''point_cloud1.txt'' then frame_A
                        else if f = ''point_cloud2.txt'' then frame_B else frame_C),
      preprocess_discard = (\<lambda>d. d),
      identify_driveable = (\<lambda>d. d)\<rparr>"

definition t0 :: timespec where
  "t0 = \<lparr>tv_sec = 5, tv_nsec = 0\<rparr>"

text \<open>
  The handler from its first statement to its return, and, after it, the steps of each
  thread that was blocked in \<^verbatim>\<open>pthread_cond_wait\<close>: the return from the wait, the test
  of \<^verbatim>\<open>running\<close>, and the unlock with \<^verbatim>\<open>return nullptr\<close>.
\<close>

definition handler_run :: "tid list" where
  "handler_run = [Handler, Handler, Handler, Handler, Handler, Handler, Handler, Handler, Handler]"

fun blocked :: "state \<Rightarrow> tid \<Rightarrow> bool" where
  "blocked s Load = (load_pc s = L_wait)"
| "blocked s Prep = (prep_pc s = P_wait1 \<or> prep_pc s = P_wait2)"
| "blocked s Ident = (ident_pc s = I_wait)"
| "blocked s Handler = False"

definition wake :: "state \<Rightarrow> tid \<Rightarrow> tid list" where
  "wake s t = (if blocked s t then [t, t, t] else [])"

definition wake_schedule :: "state \<Rightarrow> tid list" where
  "wake_schedule s = wake s Load @ wake s Prep @ wake s Ident"

definition clear_waiters :: "chan \<Rightarrow> chan" where
  "clear_waiters ch = ch\<lparr>data_available := [], data_is_null := []\<rparr>"

text \<open>
  A state in which \<open>running\<close> is false, both mutexes are free and no condition has a
  waiter: each thread that is inside a wait returns from it and terminates, and the
  state stays of that kind.
\<close>

definition quiet :: "state \<Rightarrow> bool" where
  "quiet u \<longleftrightarrow>
     \<not> running u \<and> mutex (loaded u) = None \<and> mutex (preprocessed u) = None
     \<and> data_available (loaded u) = [] \<and> data_is_null (loaded u) = []
     \<and> data_available (preprocessed u) = [] \<and> data_is_null (preprocessed u) = []"

text \<open>
  The spec's view of the two slots, following its words: a slot has
  \<open>value: Option<T>\<close>; a successful \<open>put\<close> stores its item, a successful \<open>take\<close> removes
  the stored value and returns it. In the code the item is stored by the assignment to
  \<^verbatim>\<open>data\<close> and removed by the copy out of \<^verbatim>\<open>data\<close>; \<open>view_step\<close> follows the agent
  that is about to take its step.
\<close>

record view =
  loaded_value :: "lidar_data option"
  preprocessed_value :: "lidar_data option"

definition empty_view :: view where
  "empty_view = \<lparr>loaded_value = None, preprocessed_value = None\<rparr>"

definition view_step :: "tid \<Rightarrow> state \<Rightarrow> view \<Rightarrow> view" where
  "view_step t s v =
     (case t of
        Load \<Rightarrow> if load_pc s = L_store then v\<lparr>loaded_value := Some (load_inflight s)\<rparr> else v
      | Prep \<Rightarrow>
          if prep_pc s = P_take then v\<lparr>loaded_value := None\<rparr>
          else if prep_pc s = P_store then v\<lparr>preprocessed_value := Some (prep_outbound s)\<rparr>
          else v
      | Ident \<Rightarrow> if ident_pc s = I_take then v\<lparr>preprocessed_value := None\<rparr> else v
      | Handler \<Rightarrow> v)"

fun run_view :: "collab \<Rightarrow> tid list \<Rightarrow> state \<times> view \<Rightarrow> (state \<times> view) option" where
  "run_view c [] sv = Some sv"
| "run_view c (t # ts) sv =
     (case step c t (fst sv) of
        None \<Rightarrow> None
      | Some s' \<Rightarrow> run_view c ts (s', view_step t (fst sv) (snd sv)))"

text \<open>
  The slot \<open>preprocessed\<close> against the spec's view of it. Outside the two statements
  that separate the assignment to \<^verbatim>\<open>data\<close> from the assignment to \<^verbatim>\<open>has_data\<close>
  (both inside a critical section), \<open>has_data\<close> is true exactly when the view holds a
  value, and that value is the content of \<^verbatim>\<open>data\<close>.
\<close>

definition preprocessed_slot_inv :: "state \<Rightarrow> view \<Rightarrow> bool" where
  "preprocessed_slot_inv s v \<longleftrightarrow>
     lock_inv s
   \<and> (prep_pc s = P_store \<longrightarrow> \<not> has_data (preprocessed s))
   \<and> (prep_pc s = P_set \<longrightarrow>
        \<not> has_data (preprocessed s) \<and> preprocessed_value v = Some (data (preprocessed s)))
   \<and> (ident_pc s = I_take \<longrightarrow> has_data (preprocessed s))
   \<and> (ident_pc s = I_clear \<longrightarrow>
        has_data (preprocessed s) \<and> preprocessed_value v = None
        \<and> ident_inflight s = data (preprocessed s))
   \<and> (prep_pc s \<noteq> P_set \<and> ident_pc s \<noteq> I_clear \<longrightarrow>
        preprocessed_value v =
          (if has_data (preprocessed s) then Some (data (preprocessed s)) else None))"

text \<open>
  The handler runs on the thread that takes SIGINT, and that thread does nothing else
  until the handler returns. \<open>step\<close> has the handler as an agent beside the stage
  threads, which is the case of a signal taken by a thread outside the stage code
  (\<^verbatim>\<open>main\<close>, waiting in \<^verbatim>\<open>pthread_join\<close>). \<open>step_on victim\<close> is the pipeline when the
  stage thread \<open>victim\<close> takes the signal: while the handler is between its first
  statement and its return, \<open>victim\<close> takes no step of its own.
\<close>

definition handler_active :: "state \<Rightarrow> bool" where
  "handler_active s \<longleftrightarrow> handler_pc s \<noteq> H_idle \<and> handler_pc s \<noteq> H_done"

definition step_on :: "tid \<Rightarrow> collab \<Rightarrow> tid \<Rightarrow> state \<Rightarrow> state option" where
  "step_on victim c t s =
     (if t = victim \<and> t \<noteq> Handler \<and> handler_active s then None else step c t s)"

fun run_on :: "tid \<Rightarrow> collab \<Rightarrow> tid list \<Rightarrow> state \<Rightarrow> state option" where
  "run_on victim c [] s = Some s"
| "run_on victim c (t # ts) s =
     (case step_on victim c t s of None \<Rightarrow> None | Some s' \<Rightarrow> run_on victim c ts s')"

text \<open>
  An injected function has no result, so the one way it can report an error is a C++
  exception: none of the functions is declared \<^verbatim>\<open>noexcept\<close>. \<open>collab\<close> is what a call
  leaves when it returns; \<open>faults\<close> says which calls throw instead. No function of the
  program has a \<^verbatim>\<open>try\<close> block, so an exception leaves the start routine of the thread
  and \<^verbatim>\<open>std::terminate\<close> ends the process on the spot: the step has the outcome
  \<open>Terminated\<close>, with the state in which the process died.
\<close>

record faults =
  load_data_throws :: "string \<Rightarrow> bool"
  preprocess_discard_throws :: "lidar_data \<Rightarrow> bool"
  identify_driveable_throws :: "lidar_data \<Rightarrow> bool"
  publish_data_throws :: "lidar_data \<Rightarrow> bool"

fun throws_now :: "faults \<Rightarrow> state \<Rightarrow> tid \<Rightarrow> bool" where
  "throws_now e s Load =
     (load_pc s = L_load \<and>
      (case load_data_from_files (next_file s) of
         None \<Rightarrow> False
       | Some (f, nf) \<Rightarrow> load_data_throws e f))"
| "throws_now e s Prep = (prep_pc s = P_process \<and> preprocess_discard_throws e (prep_inflight s))"
| "throws_now e s Ident =
     (ident_pc s = I_process \<and> identify_driveable_throws e (ident_inflight s)
      \<or> ident_pc s = I_publish \<and> publish_data_throws e (ident_output s))"
| "throws_now e s Handler = False"

datatype outcome = Continues state | Terminated state

definition step_exc :: "faults \<Rightarrow> collab \<Rightarrow> tid \<Rightarrow> state \<Rightarrow> outcome option" where
  "step_exc e c t s =
     (if throws_now e s t then Some (Terminated s) else map_option Continues (step c t s))"

text \<open>A frame source that fails on every file, with filters and sink that never fail.\<close>

definition failing_source :: faults where
  "failing_source =
     \<lparr>load_data_throws = (\<lambda>f. True), preprocess_discard_throws = (\<lambda>d. False),
      identify_driveable_throws = (\<lambda>d. False), publish_data_throws = (\<lambda>d. False)\<rparr>"

text \<open>One pass of \<^verbatim>\<open>load_data_thread\<close> through its loop, from the guard to \<^verbatim>\<open>timespec_add\<close>.\<close>

definition load_cycle :: "tid list" where
  "load_cycle = [Load, Load, Load, Load, Load, Load, Load, Load, Load]"

section \<open>Round-robin frame source\<close>

lemma load_data_from_files_0:
  "load_data_from_files 0 = Some (''point_cloud1.txt'', 1)"
  by (simp add: load_data_from_files_def files_def)

lemma load_data_from_files_1:
  "load_data_from_files 1 = Some (''point_cloud2.txt'', 2)"
  by (simp add: load_data_from_files_def files_def)

lemma load_data_from_files_2:
  "load_data_from_files 2 = Some (''point_cloud3.txt'', 0)"
  by (simp add: load_data_from_files_def files_def)

lemma load_data_from_files_mod:
  assumes "j < 3"
  shows "load_data_from_files (word_of_nat j) = Some (files ! j, word_of_nat (Suc j mod 3))"
proof -
  from assms consider "j = 0" | "j = 1" | "j = 2" by linarith
  then show ?thesis
  proof cases
    case 1 then show ?thesis using load_data_from_files_0 by (simp add: files_def)
  next
    case 2 then show ?thesis using load_data_from_files_1 by (simp add: files_def)
  next
    case 3 then show ?thesis using load_data_from_files_2 by (simp add: files_def)
  qed
qed

lemma load_calls_from:
  "j < 3 \<Longrightarrow>
   load_calls n (word_of_nat j) = Some (map (\<lambda>k. files ! ((j + k) mod 3)) [0..<n])"
proof (induction n arbitrary: j)
  case 0
  show ?case by simp
next
  case (Suc n)
  have next_lt: "Suc j mod 3 < 3" by simp
  have shift: "map (\<lambda>k. files ! ((j + k) mod 3)) [0..<Suc n] =
               files ! j # map (\<lambda>k. files ! ((Suc j mod 3 + k) mod 3)) [0..<n]"
  proof -
    have "[0..<Suc n] = 0 # map Suc [0..<n]"
      by (simp add: upt_conv_Cons map_Suc_upt del: upt_Suc)
    moreover have "\<And>k. (Suc j mod 3 + k) mod 3 = (j + Suc k) mod 3"
      by (simp add: mod_add_left_eq)
    ultimately show ?thesis using Suc.prems by (simp add: comp_def del: upt_Suc)
  qed
  show ?case
    using load_data_from_files_mod [OF Suc.prems] Suc.IH [OF next_lt] shift
    by simp
qed

text \<open>
  C10. Counting calls from 0 and starting from the initial value \<open>0\<close> of the static
  counter, the n-th invocation of \<open>load_data_from_files\<close> loads file number \<open>n mod 3\<close> of
  the list point_cloud1.txt, point_cloud2.txt, point_cloud3.txt: the names loaded by
  any number of successive calls are the round-robin sequence, and that sequence has
  period 3.
\<close>

theorem load_data_from_files_round_robin:
  "load_calls n 0 = Some (map (\<lambda>k. files ! (k mod 3)) [0..<n])
   \<and> files = [''point_cloud1.txt'', ''point_cloud2.txt'', ''point_cloud3.txt'']
   \<and> files ! ((k + 3) mod 3) = files ! (k mod 3)"
  using load_calls_from [of 0 n] by (simp add: files_def)

section \<open>Scheduler: first wake and period\<close>

lemma ns_timespec_add: "ns (timespec_add a b) = ns a + ns b"
  by (simp add: timespec_add_def ns_def Let_def)

lemma ns_interval: "ns interval = 100000000"
  by (simp add: ns_def interval_def)

text \<open>
  C5, as stated, fails: with the clock reading 5 s + 0 ns the first wake is at 6 s, a
  full second after the start, not one 100 ms period after it.
\<close>

theorem first_wake_not_one_period:
  "ns (first_wake \<lparr>tv_sec = 5, tv_nsec = 0\<rparr>) = 6000000000
   \<and> ns (timespec_add \<lparr>tv_sec = 5, tv_nsec = 0\<rparr> interval) = 5100000000
   \<and> first_wake \<lparr>tv_sec = 5, tv_nsec = 0\<rparr> \<noteq> timespec_add \<lparr>tv_sec = 5, tv_nsec = 0\<rparr> interval"
  by (simp add: first_wake_def initial_time_of_def ns_def timespec_add_def interval_def)

text \<open>
  C5, amended. For a clock reading with a nanosecond field in range, the first wake time
  is the reading with its seconds incremented and its nanoseconds cleared: the whole
  second after the reading's second. It is strictly later than the start (the
  acquisition stage never fires immediately) and at most one second later; it is one
  period after the start exactly when the reading's nanoseconds are 900000000.
\<close>

theorem first_wake_next_whole_second:
  assumes "0 \<le> tv_nsec now" and "tv_nsec now < 1000000000"
  shows "first_wake now = \<lparr>tv_sec = tv_sec now + 1, tv_nsec = 0\<rparr>
         \<and> ns now < ns (first_wake now)
         \<and> ns (first_wake now) \<le> ns now + 1000000000
         \<and> (ns (first_wake now) = ns now + ns interval \<longleftrightarrow> tv_nsec now = 900000000)"
  using assms
  by (simp add: first_wake_def initial_time_of_def ns_def interval_def)

theorem first_wake_next_whole_second_witness:
  "0 \<le> tv_nsec \<lparr>tv_sec = 5, tv_nsec = 250000000\<rparr>
   \<and> tv_nsec \<lparr>tv_sec = 5, tv_nsec = 250000000\<rparr> < 1000000000
   \<and> first_wake \<lparr>tv_sec = 5, tv_nsec = 250000000\<rparr> = \<lparr>tv_sec = 6, tv_nsec = 0\<rparr>
   \<and> ns (first_wake \<lparr>tv_sec = 5, tv_nsec = 250000000\<rparr>) = 6000000000
   \<and> ns \<lparr>tv_sec = 5, tv_nsec = 250000000\<rparr> = 5250000000"
proof -
  have h1: "0 \<le> tv_nsec \<lparr>tv_sec = 5, tv_nsec = 250000000\<rparr>" by simp
  have h2: "tv_nsec \<lparr>tv_sec = 5, tv_nsec = 250000000\<rparr> < 1000000000" by simp
  from first_wake_next_whole_second [OF h1 h2]
  have "first_wake \<lparr>tv_sec = 5, tv_nsec = 250000000\<rparr> = \<lparr>tv_sec = 6, tv_nsec = 0\<rparr>"
    by simp
  then show ?thesis by (simp add: ns_def)
qed

lemma next_wakes_ns:
  "map ns (next_wakes works s) =
   map (\<lambda>k. ns (next_wake s) + (int k + 1) * 100000000) [0..<length works]"
proof (induction works arbitrary: s)
  case Nil
  show ?case by simp
next
  case (Cons work works)
  have step: "ns (next_wake (acquisition_cycle work s)) = ns (next_wake s) + 100000000"
    by (simp add: acquisition_cycle_def Let_def ns_timespec_add ns_interval)
  have idx: "[0..<length (work # works)] = 0 # map Suc [0..<length works]"
    by (simp add: upt_conv_Cons map_Suc_upt del: upt_Suc)
  show ?case
    unfolding idx using Cons.IH [of "acquisition_cycle work s"] step
    by (simp add: comp_def algebra_simps)
qed

text \<open>
  C6. Every completed pass of the acquisition loop advances \<open>next_wake\<close> by exactly one
  period of 100 ms, whatever the work durations and whatever the clock: after the k-th
  pass it is the initial value plus k periods (the last statement of the loop, \<open>L_advance\<close>,
  is that addition and nothing else changes \<open>next_wake\<close>). For the durations 10 ms, 150 ms, 5 ms
  (the second overruns the period) the successive values are start + 100 ms,
  start + 200 ms, start + 300 ms.
\<close>

theorem next_wake_advances_one_period:
  "step c Load (u\<lparr>load_pc := L_advance\<rparr>) =
     Some (u\<lparr>load_next_wake := timespec_add (load_next_wake u) interval, load_pc := L_guard\<rparr>)
   \<and> ns (next_wake (acquisition_cycle work s)) = ns (next_wake s) + ns interval
   \<and> map ns (next_wakes works s) =
       map (\<lambda>k. ns (next_wake s) + (int k + 1) * 100000000) [0..<length works]
   \<and> map ns (next_wakes [10000000, 150000000, 5000000] \<lparr>clock = now, next_wake = start\<rparr>) =
       [ns start + 100000000, ns start + 200000000, ns start + 300000000]"
proof -
  have a: "ns (next_wake (acquisition_cycle work s)) = ns (next_wake s) + ns interval"
    by (simp add: acquisition_cycle_def Let_def ns_timespec_add)
  have b: "map ns (next_wakes [10000000, 150000000, 5000000] \<lparr>clock = now, next_wake = start\<rparr>) =
       [ns start + 100000000, ns start + 200000000, ns start + 300000000]"
    by (simp add: acquisition_cycle_def Let_def ns_timespec_add ns_interval)
  have st: "step c Load (u\<lparr>load_pc := L_advance\<rparr>) =
     Some (u\<lparr>load_next_wake := timespec_add (load_next_wake u) interval, load_pc := L_guard\<rparr>)"
    by (simp add: load_step_def)
  show ?thesis using st a b next_wakes_ns by blast
qed

section \<open>Jitter monitor\<close>

lemmas fl64_eval = fl64_def round_even_def Let_def pow2_def numeral_eq_Suc

lemma fl64_small [simp]:
  "fl64 0 = 0" "fl64 2 = 2" "fl64 3 = 3" "fl64 4 = 4" "fl64 6 = 6" "fl64 16 = 16" "fl64 20 = 20"
  by (simp_all add: fl64_eval)








section \<open>Running the pipeline\<close>

lemmas critical_defs = load_critical_def prep_critical1_def prep_critical2_def ident_critical_def
  handler_critical1_def handler_critical2_def

lemmas chan_ops = mutex_lock_def mutex_unlock_def wait_data_available_def wait_data_is_null_def
  wait_return_def

lemmas step_defs = load_step_def prep_step_def ident_step_def signal_handler_def

lemmas init_defs = init_state_def empty_chan_def

lemma cond_signal_short [simp]: "cond_signal [] = []" "cond_signal [t] = []"
  by (simp_all add: cond_signal_def)

lemma run_append:
  "run c (ts @ us) s = (case run c ts s of None \<Rightarrow> None | Some s' \<Rightarrow> run c us s')"
  by (induction ts arbitrary: s) (auto split: option.splits)

lemma reachable_from_run:
  "reachable_from c s0 s \<Longrightarrow> run c ts s = Some s' \<Longrightarrow> reachable_from c s0 s'"
proof (induction ts arbitrary: s)
  case Nil
  then show ?case by simp
next
  case (Cons t ts)
  then show ?case by (auto split: option.splits intro: reachable_step)
qed

lemma reachable_run: "run c ts (init_state now) = Some s \<Longrightarrow> reachable c now s"
  unfolding reachable_def by (rule reachable_from_run [OF reachable_start])

subsection \<open>Who owns a mutex\<close>

lemma lock_inv_init: "lock_inv (init_state now)"
  by (simp add: lock_inv_def init_defs critical_defs)

lemma lock_inv_load: "lock_inv s \<Longrightarrow> load_step c s = Some s' \<Longrightarrow> lock_inv s'"
  by (cases "load_pc s"; clarsimp simp: load_step_def chan_ops split: if_splits option.splits;
      clarsimp simp: lock_inv_def critical_defs)

lemma lock_inv_prep: "lock_inv s \<Longrightarrow> prep_step c s = Some s' \<Longrightarrow> lock_inv s'"
  by (cases "prep_pc s"; clarsimp simp: prep_step_def chan_ops split: if_splits;
      clarsimp simp: lock_inv_def critical_defs)

lemma lock_inv_ident: "lock_inv s \<Longrightarrow> ident_step c s = Some s' \<Longrightarrow> lock_inv s'"
  by (cases "ident_pc s"; clarsimp simp: ident_step_def chan_ops split: if_splits;
      clarsimp simp: lock_inv_def critical_defs)

lemma lock_inv_handler: "lock_inv s \<Longrightarrow> signal_handler s = Some s' \<Longrightarrow> lock_inv s'"
  by (cases "handler_pc s"; clarsimp simp: signal_handler_def chan_ops split: if_splits;
      clarsimp simp: lock_inv_def critical_defs)

lemma lock_inv_spurious: "lock_inv s \<Longrightarrow> lock_inv (spurious_wakeup t s)"
  by (simp add: lock_inv_def spurious_wakeup_def drop_waiter_def)

lemma lock_inv_reachable_from: "reachable_from c s0 s \<Longrightarrow> lock_inv s0 \<Longrightarrow> lock_inv s"
proof (induction rule: reachable_from.induct)
  case reachable_start
  then show ?case by simp
next
  case (reachable_step s t s')
  then show ?case
    by (cases t) (auto intro: lock_inv_load lock_inv_prep lock_inv_ident lock_inv_handler)
next
  case (reachable_spurious s t)
  then show ?case by (simp add: lock_inv_spurious)
qed

subsection \<open>Who waits on a condition\<close>

lemma waiters_inv_init: "waiters_inv (init_state now)"
  by (simp add: waiters_inv_def init_defs)

lemma waiters_inv_load: "waiters_inv s \<Longrightarrow> load_step c s = Some s' \<Longrightarrow> waiters_inv s'"
  by (cases "load_pc s"; clarsimp simp: load_step_def chan_ops split: if_splits option.splits;
      clarsimp simp: waiters_inv_def; auto)

lemma waiters_inv_prep: "waiters_inv s \<Longrightarrow> prep_step c s = Some s' \<Longrightarrow> waiters_inv s'"
  by (cases "prep_pc s"; clarsimp simp: prep_step_def chan_ops split: if_splits;
      clarsimp simp: waiters_inv_def; auto)

lemma waiters_inv_ident: "waiters_inv s \<Longrightarrow> ident_step c s = Some s' \<Longrightarrow> waiters_inv s'"
  by (cases "ident_pc s"; clarsimp simp: ident_step_def chan_ops split: if_splits;
      clarsimp simp: waiters_inv_def; auto)

lemma waiters_inv_handler: "waiters_inv s \<Longrightarrow> signal_handler s = Some s' \<Longrightarrow> waiters_inv s'"
  by (cases "handler_pc s"; clarsimp simp: signal_handler_def chan_ops split: if_splits;
      clarsimp simp: waiters_inv_def; auto)

lemma waiters_inv_spurious: "waiters_inv s \<Longrightarrow> waiters_inv (spurious_wakeup t s)"
  by (clarsimp simp: waiters_inv_def spurious_wakeup_def drop_waiter_def; auto)

lemma waiters_inv_reachable_from:
  "reachable_from c s0 s \<Longrightarrow> waiters_inv s0 \<Longrightarrow> waiters_inv s"
proof (induction rule: reachable_from.induct)
  case reachable_start
  then show ?case by simp
next
  case (reachable_step s t s')
  then show ?case
    by (cases t)
      (auto intro: waiters_inv_load waiters_inv_prep waiters_inv_ident waiters_inv_handler)
next
  case (reachable_spurious s t)
  then show ?case by (simp add: waiters_inv_spurious)
qed

lemma waiters_inv_reachable: "reachable c now s \<Longrightarrow> waiters_inv s"
  unfolding reachable_def by (erule waiters_inv_reachable_from) (rule waiters_inv_init)

section \<open>Locks, processing and sleeping\<close>

text \<open>
  C9. In every state the pipeline reaches from its initial state, and more generally
  from any state in which each mutex is owned exactly by an agent inside its critical
  section, a mutex is owned by an agent only within the critical section of one put or
  take (or of the handler). Hence no thread owns a mutex while it sleeps
  (\<open>L_sleep\<close>), while it runs an injected function (\<open>L_load\<close>, \<open>P_process\<close>,
  \<open>I_process\<close>, \<open>I_publish\<close>), or while it is blocked in a wait.
\<close>

theorem no_lock_across_process_or_sleep:
  assumes "reachable_from c s0 s" and "s0 = init_state now \<or> lock_inv s0"
  shows "lock_inv s
    \<and> (load_pc s = L_sleep \<or> load_pc s = L_load \<or> load_pc s = L_wait
         \<longrightarrow> mutex (loaded s) \<noteq> Some Load \<and> mutex (preprocessed s) \<noteq> Some Load)
    \<and> (prep_pc s = P_process \<or> prep_pc s = P_wait1 \<or> prep_pc s = P_wait2
         \<longrightarrow> mutex (loaded s) \<noteq> Some Prep \<and> mutex (preprocessed s) \<noteq> Some Prep)
    \<and> (ident_pc s = I_process \<or> ident_pc s = I_publish \<or> ident_pc s = I_wait
         \<longrightarrow> mutex (loaded s) \<noteq> Some Ident \<and> mutex (preprocessed s) \<noteq> Some Ident)"
proof -
  from assms(2) have "lock_inv s0" using lock_inv_init by auto
  with assms(1) have inv: "lock_inv s" by (rule lock_inv_reachable_from)
  then show ?thesis by (auto simp: lock_inv_def critical_defs)
qed

theorem no_lock_across_process_or_sleep_witness:
  "reachable_from test_collab
     ((init_state t0)\<lparr>loaded := empty_chan\<lparr>has_data := True, data := frame_A\<rparr>\<rparr>)
     ((init_state t0)\<lparr>loaded := empty_chan\<lparr>data := frame_A\<rparr>, load_pc := L_sleep,
        prep_inflight := frame_A, prep_pc := P_process\<rparr>)
   \<and> lock_inv ((init_state t0)\<lparr>loaded := empty_chan\<lparr>has_data := True, data := frame_A\<rparr>\<rparr>)
   \<and> mutex (loaded ((init_state t0)\<lparr>loaded := empty_chan\<lparr>data := frame_A\<rparr>, load_pc := L_sleep,
        prep_inflight := frame_A, prep_pc := P_process\<rparr>)) = None"
proof -
  let ?a = "(init_state t0)\<lparr>loaded := empty_chan\<lparr>has_data := True, data := frame_A\<rparr>\<rparr>"
  let ?b = "(init_state t0)\<lparr>loaded := empty_chan\<lparr>data := frame_A\<rparr>, load_pc := L_sleep,
        prep_inflight := frame_A, prep_pc := P_process\<rparr>"
  have r: "run test_collab [Load, Prep, Prep, Prep, Prep, Prep, Prep, Prep] ?a = Some ?b"
    by (simp add: step_defs chan_ops init_defs)
  have reach: "reachable_from test_collab ?a ?b"
    by (rule reachable_from_run [OF reachable_start r])
  have inv0: "lock_inv ?a"
    by (simp add: lock_inv_def init_defs critical_defs)
  then have hyp: "?a = init_state t0 \<or> lock_inv ?a" by simp
  from no_lock_across_process_or_sleep [OF reach hyp]
  have "mutex (loaded ?b) \<noteq> Some Load \<and> mutex (loaded ?b) \<noteq> Some Prep" by simp
  then show ?thesis using reach inv0 by (simp add: init_defs)
qed

section \<open>The hand-off slots\<close>

lemma load_data_from_files_step [simp]:
  "load_data_from_files 0 = Some (''point_cloud1.txt'', 1)"
  "load_data_from_files 1 = Some (''point_cloud2.txt'', 2)"
  by (simp_all add: load_data_from_files_def files_def)

lemma preprocessed_put_take:
  assumes "prep_pc s = P_lock2" and "ident_pc s = I_lock"
    and "mutex (preprocessed s) = None" and "\<not> has_data (preprocessed s)"
    and "data_available (preprocessed s) = []" and "data_is_null (preprocessed s) = []"
  shows "run c [Prep, Prep, Prep, Prep, Prep, Prep] s =
           Some (s\<lparr>preprocessed := (preprocessed s)\<lparr>has_data := True, data := prep_outbound s\<rparr>,
                   prep_pc := P_guard\<rparr>)"
    and "run c [Prep, Prep, Prep, Prep, Prep, Prep, Ident, Ident, Ident, Ident, Ident, Ident] s =
           Some (s\<lparr>preprocessed := (preprocessed s)\<lparr>has_data := False, data := prep_outbound s\<rparr>,
                   prep_pc := P_guard, ident_inflight := prep_outbound s, ident_pc := I_process\<rparr>)"
  using assms by (simp_all add: step_defs chan_ops)

lemma slot_inv_init: "preprocessed_slot_inv (init_state now) empty_view"
  by (simp add: preprocessed_slot_inv_def lock_inv_init) (simp add: init_defs empty_view_def)

lemma slot_inv_load:
  "preprocessed_slot_inv s v \<Longrightarrow> load_step c s = Some s' \<Longrightarrow>
   preprocessed_slot_inv s' (view_step Load s v)"
  unfolding preprocessed_slot_inv_def
  by (elim conjE, frule (1) lock_inv_load, thin_tac "lock_inv s",
      cases "load_pc s"; clarsimp simp: load_step_def chan_ops view_step_def
        split: if_splits option.splits)

lemma slot_inv_handler:
  "preprocessed_slot_inv s v \<Longrightarrow> signal_handler s = Some s' \<Longrightarrow>
   preprocessed_slot_inv s' (view_step Handler s v)"
  unfolding preprocessed_slot_inv_def
  by (elim conjE, frule (1) lock_inv_handler, thin_tac "lock_inv s",
      cases "handler_pc s"; clarsimp simp: signal_handler_def chan_ops view_step_def
        split: if_splits)

lemma slot_inv_prep:
  "preprocessed_slot_inv s v \<Longrightarrow> prep_step c s = Some s' \<Longrightarrow>
   preprocessed_slot_inv s' (view_step Prep s v)"
  unfolding preprocessed_slot_inv_def
  by (elim conjE, frule (1) lock_inv_prep,
      cases "prep_pc s"; clarsimp simp: prep_step_def chan_ops view_step_def split: if_splits;
      clarsimp simp: lock_inv_def critical_defs)

lemma slot_inv_ident:
  "preprocessed_slot_inv s v \<Longrightarrow> ident_step c s = Some s' \<Longrightarrow>
   preprocessed_slot_inv s' (view_step Ident s v)"
  unfolding preprocessed_slot_inv_def
  by (elim conjE, frule (1) lock_inv_ident,
      cases "ident_pc s"; clarsimp simp: ident_step_def chan_ops view_step_def split: if_splits;
      clarsimp simp: lock_inv_def critical_defs)

lemma slot_inv_step:
  "preprocessed_slot_inv s v \<Longrightarrow> step c t s = Some s' \<Longrightarrow>
   preprocessed_slot_inv s' (view_step t s v)"
  by (cases t) (auto intro: slot_inv_load slot_inv_prep slot_inv_ident slot_inv_handler)

lemma slot_inv_run_view:
  "run_view c ts (s, v) = Some (s', v') \<Longrightarrow> preprocessed_slot_inv s v \<Longrightarrow>
   preprocessed_slot_inv s' v'"
proof (induction ts arbitrary: s v)
  case Nil
  then show ?case by simp
next
  case (Cons t ts)
  then show ?case by (auto split: option.splits dest: slot_inv_step)
qed

text \<open>
  On \<open>preprocessed\<close> the claims C1 and C2 hold in every run: whenever the mutex is free,
  \<open>has_data\<close> is true exactly when a value is present, and a take returns the value
  stored by the latest put.
\<close>

lemma preprocessed_slot_sound:
  assumes "run_view c ts (init_state now, empty_view) = Some (s, v)"
  shows "mutex (preprocessed s) = None \<Longrightarrow>
           has_data (preprocessed s) = (preprocessed_value v \<noteq> None)"
    and "ident_pc s = I_take \<Longrightarrow> step c Ident s = Some s' \<Longrightarrow>
           preprocessed_value v = Some (ident_inflight s')"
proof -
  have inv: "preprocessed_slot_inv s v"
    by (rule slot_inv_run_view [OF assms slot_inv_init])
  show "has_data (preprocessed s) = (preprocessed_value v \<noteq> None)"
    if free: "mutex (preprocessed s) = None"
  proof -
    from inv have "lock_inv s" by (simp add: preprocessed_slot_inv_def)
    with free have "\<not> prep_critical2 (prep_pc s)" "\<not> ident_critical (ident_pc s)"
      by (simp_all add: lock_inv_def)
    then have "prep_pc s \<noteq> P_set" "ident_pc s \<noteq> I_clear"
      by (auto simp: critical_defs)
    with inv have "preprocessed_value v =
        (if has_data (preprocessed s) then Some (data (preprocessed s)) else None)"
      by (simp add: preprocessed_slot_inv_def)
    then show ?thesis by simp
  qed
  show "preprocessed_value v = Some (ident_inflight s')"
    if at: "ident_pc s = I_take" and st: "step c Ident s = Some s'"
  proof -
    from inv have "lock_inv s" by (simp add: preprocessed_slot_inv_def)
    with at have "prep_pc s \<noteq> P_set"
      by (auto simp: lock_inv_def critical_defs)
    with inv at have "has_data (preprocessed s)"
      and "preprocessed_value v =
        (if has_data (preprocessed s) then Some (data (preprocessed s)) else None)"
      by (simp_all add: preprocessed_slot_inv_def)
    moreover from at st have "ident_inflight s' = data (preprocessed s)"
      by (auto simp: ident_step_def)
    ultimately show ?thesis by simp
  qed
qed

text \<open>
  C1 (the code departs from the claim). From the initial state the acquisition thread
  completes a put on the slot \<open>loaded\<close>: the frame of point_cloud1.txt is stored in
  \<open>data\<close>, but \<open>has_data\<close> is still false, since \<^verbatim>\<open>load_data_thread\<close> never assigns it
  (the put of \<^verbatim>\<open>preprocess_discard_thread\<close> does: \<open>preprocessed_put_take\<close>). So the next
  put succeeds as well and overwrites the frame, with no take in between, and a take by
  the consumer does not return the stored value: the consumer ends up blocked in its
  wait.
\<close>

theorem load_put_leaves_has_data_false:
  "run c load_cycle (init_state now) =
     Some ((init_state now)
       \<lparr>loaded := empty_chan\<lparr>has_data := False, data := load_data c ''point_cloud1.txt''\<rparr>,
        next_file := 1, load_inflight := load_data c ''point_cloud1.txt'',
        load_next_wake := timespec_add (initial_time_of now) interval\<rparr>)
   \<and> run c (load_cycle @ load_cycle) (init_state now) =
     Some ((init_state now)
       \<lparr>loaded := empty_chan\<lparr>has_data := False, data := load_data c ''point_cloud2.txt''\<rparr>,
        next_file := 2, load_inflight := load_data c ''point_cloud2.txt'',
        load_next_wake := timespec_add (timespec_add (initial_time_of now) interval) interval\<rparr>)
   \<and> run c (load_cycle @ [Prep, Prep, Prep, Prep]) (init_state now) =
     Some ((init_state now)
       \<lparr>loaded := empty_chan\<lparr>has_data := False, data := load_data c ''point_cloud1.txt'',
                              data_available := [Prep]\<rparr>,
        next_file := 1, load_inflight := load_data c ''point_cloud1.txt'',
        load_next_wake := timespec_add (initial_time_of now) interval,
        prep_pc := P_wait1\<rparr>)
   \<and> step c Prep ((init_state now)
       \<lparr>loaded := empty_chan\<lparr>has_data := False, data := load_data c ''point_cloud1.txt'',
                              data_available := [Prep]\<rparr>,
        next_file := 1, load_inflight := load_data c ''point_cloud1.txt'',
        load_next_wake := timespec_add (initial_time_of now) interval,
        prep_pc := P_wait1\<rparr>) = None"
  by (simp add: load_cycle_def step_defs chan_ops init_defs)

text \<open>
  C2 (the code departs from the claim). After the first put of the acquisition thread
  the mutex of \<open>loaded\<close> is free and the slot holds a value that has been stored and not
  taken, yet \<open>has_data\<close> is false: occupied and "a value is present" disagree.
\<close>

theorem loaded_slot_value_without_flag:
  "run_view c load_cycle (init_state now, empty_view) =
     Some ((init_state now)
       \<lparr>loaded := empty_chan\<lparr>has_data := False, data := load_data c ''point_cloud1.txt''\<rparr>,
        next_file := 1, load_inflight := load_data c ''point_cloud1.txt'',
        load_next_wake := timespec_add (initial_time_of now) interval\<rparr>,
       \<lparr>loaded_value = Some (load_data c ''point_cloud1.txt''), preprocessed_value = None\<rparr>)
   \<and> mutex (empty_chan\<lparr>has_data := False, data := load_data c ''point_cloud1.txt''\<rparr>) = None"
  by (simp add: load_cycle_def step_defs chan_ops init_defs view_step_def empty_view_def)

section \<open>Cancellation\<close>

text \<open>
  C3, as stated, fails. The acquisition thread passes its loop guard, then SIGINT is
  handled completely: \<open>running\<close> is false before the put starts (the thread is about to
  lock the mutex). The put goes ahead all the same and stores the frame.
\<close>

theorem put_stores_after_running_cleared:
  "run test_collab (Load # handler_run @ [Load, Load]) (init_state t0) =
     Some ((init_state t0)
       \<lparr>running := False, next_file := 1, load_inflight := frame_A, load_pc := L_lock,
        handler_pc := H_done\<rparr>)
   \<and> run test_collab [Load, Load, Load, Load, Load]
       ((init_state t0)
         \<lparr>running := False, next_file := 1, load_inflight := frame_A, load_pc := L_lock,
          handler_pc := H_done\<rparr>) =
     Some ((init_state t0)
       \<lparr>running := False, loaded := empty_chan\<lparr>data := frame_A\<rparr>, next_file := 1,
        load_inflight := frame_A, load_pc := L_advance, handler_pc := H_done\<rparr>)"
  by (simp add: handler_run_def step_defs chan_ops init_defs test_collab_def)

text \<open>
  The same window on the side of a take: the consumer of \<open>preprocessed\<close> passes its loop
  guard, SIGINT is handled completely, and the consumer then finds the slot empty and
  waits. The handler's signals are over, so the thread stays blocked.
\<close>

lemma take_blocks_after_running_cleared:
  "run test_collab (Ident # handler_run @ [Ident, Ident, Ident]) (init_state t0) =
     Some ((init_state t0)
       \<lparr>running := False, preprocessed := empty_chan\<lparr>data_available := [Ident]\<rparr>,
        ident_pc := I_wait, handler_pc := H_done\<rparr>)
   \<and> step test_collab Ident ((init_state t0)
       \<lparr>running := False, preprocessed := empty_chan\<lparr>data_available := [Ident]\<rparr>,
        ident_pc := I_wait, handler_pc := H_done\<rparr>) = None"
  by (simp add: handler_run_def step_defs chan_ops init_defs)

text \<open>
  C3, amended. With \<open>running\<close> false, a stage that evaluates its loop guard returns
  without touching a slot, and an operation that returns from its wait unlocks and
  returns: nothing is stored, nothing is removed, \<open>has_data\<close> and \<open>data\<close> of the slot
  are as before.
\<close>

theorem cancelled_operation_leaves_slot_unchanged:
  assumes "\<not> running s"
  shows "(load_pc s = L_guard \<longrightarrow> step c Load s = Some (s\<lparr>load_pc := L_done\<rparr>))
    \<and> (prep_pc s = P_guard \<longrightarrow> step c Prep s = Some (s\<lparr>prep_pc := P_done\<rparr>))
    \<and> (ident_pc s = I_guard \<longrightarrow> step c Ident s = Some (s\<lparr>ident_pc := I_done\<rparr>))
    \<and> (load_pc s = L_check \<longrightarrow>
          run c [Load, Load] s = Some (s\<lparr>loaded := mutex_unlock (loaded s), load_pc := L_done\<rparr>))
    \<and> (prep_pc s = P_check1 \<longrightarrow>
          run c [Prep, Prep] s = Some (s\<lparr>loaded := mutex_unlock (loaded s), prep_pc := P_done\<rparr>))
    \<and> (prep_pc s = P_check2 \<longrightarrow>
          run c [Prep, Prep] s =
            Some (s\<lparr>preprocessed := mutex_unlock (preprocessed s), prep_pc := P_done\<rparr>))
    \<and> (ident_pc s = I_check \<longrightarrow>
          run c [Ident, Ident] s =
            Some (s\<lparr>preprocessed := mutex_unlock (preprocessed s), ident_pc := I_done\<rparr>))
    \<and> has_data (mutex_unlock ch) = has_data ch \<and> data (mutex_unlock ch) = data ch"
  using assms by (simp add: step_defs mutex_unlock_def)

theorem cancelled_operation_leaves_slot_unchanged_witness:
  "run test_collab ([Ident, Ident, Ident, Ident] @ handler_run @ [Ident]) (init_state t0) =
     Some ((init_state t0)
       \<lparr>running := False, preprocessed := empty_chan\<lparr>mutex := Some Ident\<rparr>,
        ident_pc := I_check, handler_pc := H_done\<rparr>)
   \<and> \<not> running ((init_state t0)
       \<lparr>running := False, preprocessed := empty_chan\<lparr>mutex := Some Ident\<rparr>,
        ident_pc := I_check, handler_pc := H_done\<rparr>)
   \<and> step test_collab Load ((init_state t0)
       \<lparr>running := False, preprocessed := empty_chan\<lparr>mutex := Some Ident\<rparr>,
        ident_pc := I_check, handler_pc := H_done\<rparr>) =
     Some ((init_state t0)
       \<lparr>running := False, preprocessed := empty_chan\<lparr>mutex := Some Ident\<rparr>,
        load_pc := L_done, ident_pc := I_check, handler_pc := H_done\<rparr>)
   \<and> run test_collab [Ident, Ident] ((init_state t0)
       \<lparr>running := False, preprocessed := empty_chan\<lparr>mutex := Some Ident\<rparr>,
        ident_pc := I_check, handler_pc := H_done\<rparr>) =
     Some ((init_state t0)
       \<lparr>running := False, preprocessed := empty_chan, ident_pc := I_done, handler_pc := H_done\<rparr>)"
proof -
  let ?w = "(init_state t0)
       \<lparr>running := False, preprocessed := empty_chan\<lparr>mutex := Some Ident\<rparr>,
        ident_pc := I_check, handler_pc := H_done\<rparr>"
  have reach: "run test_collab ([Ident, Ident, Ident, Ident] @ handler_run @ [Ident]) (init_state t0)
      = Some ?w"
    by (simp add: handler_run_def step_defs chan_ops init_defs)
  have off: "\<not> running ?w" by simp
  have pcs: "load_pc ?w = L_guard" "ident_pc ?w = I_check" by (simp_all add: init_defs)
  from cancelled_operation_leaves_slot_unchanged [OF off, of test_collab] pcs
  have "step test_collab Load ?w = Some (?w\<lparr>load_pc := L_done\<rparr>)"
    and "run test_collab [Ident, Ident] ?w =
           Some (?w\<lparr>preprocessed := mutex_unlock (preprocessed ?w), ident_pc := I_done\<rparr>)"
    by blast+
  then show ?thesis using reach by (simp add: mutex_unlock_def init_defs)
qed

section \<open>The signal handler\<close>

lemma chan_mutex_None: "mutex ch = None \<Longrightarrow> ch\<lparr>mutex := None\<rparr> = ch"
  by (cases ch) simp

lemma handler_run_clears_waiters:
  assumes idle: "handler_pc s = H_idle \<or> handler_pc s = H_done"
    and free: "mutex (loaded s) = None" "mutex (preprocessed s) = None"
    and w: "waiters_inv s"
  shows "run c handler_run s =
           Some (s\<lparr>running := False, loaded := clear_waiters (loaded s),
                   preprocessed := clear_waiters (preprocessed s), handler_pc := H_done\<rparr>)"
proof -
  from w have sig:
    "cond_signal (data_available (loaded s)) = []"
    "cond_signal (data_is_null (loaded s)) = []"
    "cond_signal (data_available (preprocessed s)) = []"
    "cond_signal (data_is_null (preprocessed s)) = []"
    by (auto simp: waiters_inv_def)
  have l: "(loaded s)\<lparr>data_available := [], data_is_null := [], mutex := None\<rparr>
             = clear_waiters (loaded s)"
    using free(1) by (cases "loaded s") (simp add: clear_waiters_def)
  have p: "(preprocessed s)\<lparr>data_available := [], data_is_null := [], mutex := None\<rparr>
             = clear_waiters (preprocessed s)"
    using free(2) by (cases "preprocessed s") (simp add: clear_waiters_def)
  from idle show ?thesis
    by (auto simp: handler_run_def signal_handler_def mutex_lock_def mutex_unlock_def free sig l p)
qed

lemma wake_load:
  assumes "\<not> running u" and "load_pc u = L_wait"
    and "mutex (loaded u) = None" and "data_is_null (loaded u) = []"
  shows "run c [Load, Load, Load] u = Some (u\<lparr>load_pc := L_done\<rparr>)"
  using assms chan_mutex_None [of "loaded u"] by (simp add: load_step_def chan_ops)

lemma wake_prep1:
  assumes "\<not> running u" and "prep_pc u = P_wait1"
    and "mutex (loaded u) = None" and "data_available (loaded u) = []"
  shows "run c [Prep, Prep, Prep] u = Some (u\<lparr>prep_pc := P_done\<rparr>)"
  using assms chan_mutex_None [of "loaded u"] by (simp add: prep_step_def chan_ops)

lemma wake_prep2:
  assumes "\<not> running u" and "prep_pc u = P_wait2"
    and "mutex (preprocessed u) = None" and "data_is_null (preprocessed u) = []"
  shows "run c [Prep, Prep, Prep] u = Some (u\<lparr>prep_pc := P_done\<rparr>)"
  using assms chan_mutex_None [of "preprocessed u"] by (simp add: prep_step_def chan_ops)

lemma wake_ident:
  assumes "\<not> running u" and "ident_pc u = I_wait"
    and "mutex (preprocessed u) = None" and "data_available (preprocessed u) = []"
  shows "run c [Ident, Ident, Ident] u = Some (u\<lparr>ident_pc := I_done\<rparr>)"
  using assms chan_mutex_None [of "preprocessed u"] by (simp add: ident_step_def chan_ops)

lemma quiet_wake_load:
  assumes "quiet u"
  shows "run c (wake u Load) u = Some (u\<lparr>load_pc := (if blocked u Load then L_done else load_pc u)\<rparr>)"
  using assms wake_load [of u c] by (simp add: quiet_def wake_def)

lemma quiet_wake_prep:
  assumes "quiet u"
  shows "run c (wake u Prep) u = Some (u\<lparr>prep_pc := (if blocked u Prep then P_done else prep_pc u)\<rparr>)"
  using assms wake_prep1 [of u c] wake_prep2 [of u c] by (auto simp: quiet_def wake_def)

lemma quiet_wake_ident:
  assumes "quiet u"
  shows "run c (wake u Ident) u =
           Some (u\<lparr>ident_pc := (if blocked u Ident then I_done else ident_pc u)\<rparr>)"
  using assms wake_ident [of u c] by (simp add: quiet_def wake_def)


text \<open>
  What the handler achieves. It first sets \<open>running\<close> to false; then, for \<open>loaded\<close> and
  for \<open>preprocessed\<close> in turn, it locks the mutex, signals \<open>data_available\<close> and
  \<open>data_is_null\<close> (\<^verbatim>\<open>pthread_cond_signal\<close>, one waiter each) and unlocks. Each condition
  of the pipeline has at most one waiter (\<open>waiters_inv\<close>), so when the handler runs from
  a state with both mutexes free, the threads that are inside a wait at that moment
  return from it, find \<open>running\<close> false, unlock and terminate.
\<close>

lemma handler_wakes_waiting_threads:
  assumes idle: "handler_pc s = H_idle \<or> handler_pc s = H_done"
    and free: "mutex (loaded s) = None" "mutex (preprocessed s) = None"
    and w: "waiters_inv s"
  shows "step c Handler s = Some (s\<lparr>running := False, handler_pc := H_lock1\<rparr>)
    \<and> run c handler_run s =
          Some (s\<lparr>running := False, loaded := clear_waiters (loaded s),
                  preprocessed := clear_waiters (preprocessed s), handler_pc := H_done\<rparr>)
    \<and> run c (handler_run @ wake_schedule s) s =
          Some (s\<lparr>running := False, loaded := clear_waiters (loaded s),
                  preprocessed := clear_waiters (preprocessed s), handler_pc := H_done,
                  load_pc := (if blocked s Load then L_done else load_pc s),
                  prep_pc := (if blocked s Prep then P_done else prep_pc s),
                  ident_pc := (if blocked s Ident then I_done else ident_pc s)\<rparr>)"
proof -
  let ?h = "s\<lparr>running := False, loaded := clear_waiters (loaded s),
              preprocessed := clear_waiters (preprocessed s), handler_pc := H_done\<rparr>"
  let ?u1 = "?h\<lparr>load_pc := (if blocked s Load then L_done else load_pc s)\<rparr>"
  let ?u2 = "?u1\<lparr>prep_pc := (if blocked s Prep then P_done else prep_pc s)\<rparr>"
  let ?u3 = "?u2\<lparr>ident_pc := (if blocked s Ident then I_done else ident_pc s)\<rparr>"
  have first: "step c Handler s = Some (s\<lparr>running := False, handler_pc := H_lock1\<rparr>)"
    using idle by (auto simp: signal_handler_def)
  have h: "run c handler_run s = Some ?h"
    by (rule handler_run_clears_waiters [OF idle free w])
  have q0: "quiet ?h"
    using free by (simp add: quiet_def clear_waiters_def)
  then have q1: "quiet ?u1" and q2: "quiet ?u2"
    by (simp_all add: quiet_def)
  have w1: "run c (wake s Load) ?h = Some ?u1"
    using quiet_wake_load [OF q0, of c] by (simp add: wake_def)
  have w2: "run c (wake s Prep) ?u1 = Some ?u2"
    using quiet_wake_prep [OF q1, of c] by (simp add: wake_def)
  have w3: "run c (wake s Ident) ?u2 = Some ?u3"
    using quiet_wake_ident [OF q2, of c] by (simp add: wake_def)
  have all: "run c (handler_run @ wake_schedule s) s = Some ?u3"
    by (simp only: run_append wake_schedule_def h w1 w2 w3 option.case)
  show ?thesis using first h all by simp
qed

text \<open>
  The handler when SIGINT is taken by a stage thread inside a critical section: the
  preprocessing thread owns the mutex of \<open>loaded\<close> and takes the signal. The handler
  sets \<open>running\<close> to false and then waits for that mutex, which only the thread it
  has interrupted can release. The other two threads see \<open>running\<close> false and return;
  after that no agent can take a step.
\<close>

lemma handler_deadlocks_on_owner:
  "run_on Prep c [Prep, Prep, Handler, Load, Ident] (init_state now) =
     Some ((init_state now)
       \<lparr>running := False, loaded := empty_chan\<lparr>mutex := Some Prep\<rparr>, load_pc := L_done,
        prep_pc := P_test1, ident_pc := I_done, handler_pc := H_lock1\<rparr>)
   \<and> (\<forall>t. step_on Prep c t ((init_state now)
       \<lparr>running := False, loaded := empty_chan\<lparr>mutex := Some Prep\<rparr>, load_pc := L_done,
        prep_pc := P_test1, ident_pc := I_done, handler_pc := H_lock1\<rparr>) = None)"
proof -
  have r: "run_on Prep c [Prep, Prep, Handler, Load, Ident] (init_state now) =
     Some ((init_state now)
       \<lparr>running := False, loaded := empty_chan\<lparr>mutex := Some Prep\<rparr>, load_pc := L_done,
        prep_pc := P_test1, ident_pc := I_done, handler_pc := H_lock1\<rparr>)"
    by (simp add: step_on_def handler_active_def step_defs chan_ops init_defs)
  have "step_on Prep c t ((init_state now)
       \<lparr>running := False, loaded := empty_chan\<lparr>mutex := Some Prep\<rparr>, load_pc := L_done,
        prep_pc := P_test1, ident_pc := I_done, handler_pc := H_lock1\<rparr>) = None" for t
    by (cases t) (simp_all add: step_on_def handler_active_def step_defs chan_ops init_defs)
  with r show ?thesis by blast
qed

text \<open>
  C4 (the code departs from the claim). The thread of \<^verbatim>\<open>identify_driveable_thread\<close>
  passes its loop guard while \<open>running\<close> is still true; then the single SIGINT is
  handled from the first statement of the handler to its return; then the thread
  locks the mutex of \<open>preprocessed\<close>, finds \<open>has_data\<close> false and calls
  \<^verbatim>\<open>pthread_cond_wait\<close>. The wait loop tests \<open>running\<close> only after a wake-up, and the
  handler's one signal is over: the thread is blocked. The other two threads see
  \<open>running\<close> false at their guards and return, so that no stage can take a step any
  more and nothing is left to wake the blocked thread.
\<close>

theorem consumer_blocked_after_handler_returned:
  "run c (Ident # handler_run @ [Ident, Ident, Ident, Load, Prep]) (init_state now) =
     Some ((init_state now)
       \<lparr>running := False, preprocessed := empty_chan\<lparr>data_available := [Ident]\<rparr>,
        load_pc := L_done, prep_pc := P_done, ident_pc := I_wait, handler_pc := H_done\<rparr>)
   \<and> step c Load ((init_state now)
       \<lparr>running := False, preprocessed := empty_chan\<lparr>data_available := [Ident]\<rparr>,
        load_pc := L_done, prep_pc := P_done, ident_pc := I_wait, handler_pc := H_done\<rparr>) = None
   \<and> step c Prep ((init_state now)
       \<lparr>running := False, preprocessed := empty_chan\<lparr>data_available := [Ident]\<rparr>,
        load_pc := L_done, prep_pc := P_done, ident_pc := I_wait, handler_pc := H_done\<rparr>) = None
   \<and> step c Ident ((init_state now)
       \<lparr>running := False, preprocessed := empty_chan\<lparr>data_available := [Ident]\<rparr>,
        load_pc := L_done, prep_pc := P_done, ident_pc := I_wait, handler_pc := H_done\<rparr>) = None"
  by (simp add: handler_run_def step_defs chan_ops init_defs)

section \<open>Stages and their collaborators\<close>

lemma load_step_running:
  "load_step c s = Some s' \<Longrightarrow> running s' = running s \<and> handler_pc s' = handler_pc s"
  by (cases "load_pc s"; clarsimp simp: load_step_def chan_ops split: if_splits option.splits)

lemma prep_step_running:
  "prep_step c s = Some s' \<Longrightarrow> running s' = running s \<and> handler_pc s' = handler_pc s"
  by (cases "prep_pc s"; clarsimp simp: prep_step_def chan_ops split: if_splits)

lemma ident_step_running:
  "ident_step c s = Some s' \<Longrightarrow> running s' = running s \<and> handler_pc s' = handler_pc s"
  by (cases "ident_pc s"; clarsimp simp: ident_step_def chan_ops split: if_splits)

lemma stage_step_keeps_running:
  assumes "step c t s = Some s'" and "t \<noteq> Handler"
  shows "running s' = running s \<and> handler_pc s' = handler_pc s"
  using assms by (cases t) (auto dest: load_step_running prep_step_running ident_step_running)

text \<open>
  C7, as stated, fails. The frame source throws at the first call of the acquisition
  thread. The process ends there, in the state it had before the call: \<open>running\<close> is
  still true, the handler has not run, the other two stages have not been told
  anything. The stage has not triggered the shutdown before terminating.
\<close>

theorem source_exception_ends_process_without_shutdown:
  "run test_collab [Load, Load] (init_state t0) = Some ((init_state t0)\<lparr>load_pc := L_load\<rparr>)
   \<and> step_exc failing_source test_collab Load ((init_state t0)\<lparr>load_pc := L_load\<rparr>) =
       Some (Terminated ((init_state t0)\<lparr>load_pc := L_load\<rparr>))
   \<and> running ((init_state t0)\<lparr>load_pc := L_load\<rparr>)
   \<and> handler_pc ((init_state t0)\<lparr>load_pc := L_load\<rparr>) = H_idle
   \<and> prep_pc ((init_state t0)\<lparr>load_pc := L_load\<rparr>) = P_guard
   \<and> ident_pc ((init_state t0)\<lparr>load_pc := L_load\<rparr>) = I_guard"
  by (simp add: step_exc_def failing_source_def load_step_def init_defs)

text \<open>
  C7, amended. An injected function returns nothing; it reports an error only by
  throwing, and no stage catches: the exception ends the whole process at once, in the
  state it had before the call, so \<open>running\<close> is not set to false and nobody is woken.
  When the call returns, the stage goes on to its next statement with the frame the
  call produced; no step of a stage changes \<open>running\<close> or starts the handler, nothing
  is skipped and nothing is retried.
\<close>

theorem collaborator_exception_terminates_process:
  assumes "t \<noteq> Handler"
  shows "(throws_now e s t \<longrightarrow> step_exc e c t s = Some (Terminated s))
    \<and> (\<not> throws_now e s t \<longrightarrow> step_exc e c t s = map_option Continues (step c t s))
    \<and> (step c t s = Some s' \<longrightarrow>
          running s' = running s \<and> handler_pc s' = handler_pc s
          \<and> (t = Load \<and> load_pc s = L_load \<longrightarrow>
                load_pc s' = L_lock
                \<and> (\<exists>f nf. load_data_from_files (next_file s) = Some (f, nf)
                      \<and> load_inflight s' = load_data c f))
          \<and> (t = Prep \<and> prep_pc s = P_process \<longrightarrow>
                prep_pc s' = P_lock2 \<and> prep_outbound s' = preprocess_discard c (prep_inflight s))
          \<and> (t = Ident \<and> ident_pc s = I_process \<longrightarrow>
                ident_pc s' = I_publish
                \<and> ident_output s' = identify_driveable c (ident_inflight s))
          \<and> (t = Ident \<and> ident_pc s = I_publish \<longrightarrow>
                ident_pc s' = I_guard \<and> published s' = published s @ [ident_output s]))"
proof -
  have exc: "(throws_now e s t \<longrightarrow> step_exc e c t s = Some (Terminated s))
    \<and> (\<not> throws_now e s t \<longrightarrow> step_exc e c t s = map_option Continues (step c t s))"
    by (simp add: step_exc_def)
  have ret: "running s' = running s \<and> handler_pc s' = handler_pc s
          \<and> (t = Load \<and> load_pc s = L_load \<longrightarrow>
                load_pc s' = L_lock
                \<and> (\<exists>f nf. load_data_from_files (next_file s) = Some (f, nf)
                      \<and> load_inflight s' = load_data c f))
          \<and> (t = Prep \<and> prep_pc s = P_process \<longrightarrow>
                prep_pc s' = P_lock2 \<and> prep_outbound s' = preprocess_discard c (prep_inflight s))
          \<and> (t = Ident \<and> ident_pc s = I_process \<longrightarrow>
                ident_pc s' = I_publish
                \<and> ident_output s' = identify_driveable c (ident_inflight s))
          \<and> (t = Ident \<and> ident_pc s = I_publish \<longrightarrow>
                ident_pc s' = I_guard \<and> published s' = published s @ [ident_output s])"
    if st: "step c t s = Some s'"
  proof -
    have keep: "running s' = running s \<and> handler_pc s' = handler_pc s"
      by (rule stage_step_keeps_running [OF st assms])
    have l: "t = Load \<and> load_pc s = L_load \<longrightarrow>
          load_pc s' = L_lock
          \<and> (\<exists>f nf. load_data_from_files (next_file s) = Some (f, nf)
                \<and> load_inflight s' = load_data c f)"
      using st by (auto simp: load_step_def split: option.splits)
    have p: "t = Prep \<and> prep_pc s = P_process \<longrightarrow>
          prep_pc s' = P_lock2 \<and> prep_outbound s' = preprocess_discard c (prep_inflight s)"
      using st by (auto simp: prep_step_def)
    have i: "t = Ident \<and> ident_pc s = I_process \<longrightarrow>
          ident_pc s' = I_publish \<and> ident_output s' = identify_driveable c (ident_inflight s)"
      using st by (auto simp: ident_step_def)
    have j: "t = Ident \<and> ident_pc s = I_publish \<longrightarrow>
          ident_pc s' = I_guard \<and> published s' = published s @ [ident_output s]"
      using st by (auto simp: ident_step_def)
    show ?thesis using keep l p i j by blast
  qed
  show ?thesis using exc ret by blast
qed

theorem collaborator_exception_terminates_process_witness:
  "Load \<noteq> Handler
   \<and> throws_now failing_source ((init_state t0)\<lparr>load_pc := L_load\<rparr>) Load
   \<and> step_exc failing_source test_collab Load ((init_state t0)\<lparr>load_pc := L_load\<rparr>) =
       Some (Terminated ((init_state t0)\<lparr>load_pc := L_load\<rparr>))
   \<and> step test_collab Load ((init_state t0)\<lparr>load_pc := L_load\<rparr>) =
       Some ((init_state t0)\<lparr>next_file := 1, load_inflight := frame_A, load_pc := L_lock\<rparr>)
   \<and> running ((init_state t0)\<lparr>next_file := 1, load_inflight := frame_A, load_pc := L_lock\<rparr>)
       = running ((init_state t0)\<lparr>load_pc := L_load\<rparr>)"
proof -
  have ne: "Load \<noteq> Handler" by simp
  have th: "throws_now failing_source ((init_state t0)\<lparr>load_pc := L_load\<rparr>) Load"
    by (simp add: failing_source_def init_defs)
  have st: "step test_collab Load ((init_state t0)\<lparr>load_pc := L_load\<rparr>) =
     Some ((init_state t0)\<lparr>next_file := 1, load_inflight := frame_A, load_pc := L_lock\<rparr>)"
    by (simp add: load_step_def init_defs test_collab_def)
  from collaborator_exception_terminates_process [OF ne,
      of failing_source "(init_state t0)\<lparr>load_pc := L_load\<rparr>" test_collab
         "(init_state t0)\<lparr>next_file := 1, load_inflight := frame_A, load_pc := L_lock\<rparr>"]
    th st
  have "step_exc failing_source test_collab Load ((init_state t0)\<lparr>load_pc := L_load\<rparr>) =
          Some (Terminated ((init_state t0)\<lparr>load_pc := L_load\<rparr>))"
    and "running ((init_state t0)\<lparr>next_file := 1, load_inflight := frame_A, load_pc := L_lock\<rparr>)
          = running ((init_state t0)\<lparr>load_pc := L_load\<rparr>)"
    by blast+
  then show ?thesis using th st by simp
qed

end
